theory Spec2Isabelle
  imports Complex_Main "HOL-Library.Log_Nat"
begin

section \<open>Python values used by app.py\<close>

text \<open>
  Strings are lists of characters; a \<^typ>\<open>char\<close> stands for a code point below 256, so
  the model covers the texts of the Latin-1 range. Exceptions are values of the type
  \<open>error\<close>; a function that can raise returns \<open>error + 'a\<close> with \<open>Inl\<close> for the
  exception.
\<close>

subsection \<open>Floats\<close>

text \<open>
  A Python float is an IEEE double. A finite double is given by the rational number it is
  equal to; the two zeros, which Python's \<open>==\<close> does not tell apart, are both
  \<open>Finite 0\<close>.
\<close>

datatype pyfloat = Finite rat | PosInf | NegInf | NaN

definition round_half_even :: "rat \<Rightarrow> int" where
  "round_half_even q =
     (let f = \<lfloor>q\<rfloor>; d = q - of_int f
      in if d < 1 / 2 then f else if 1 / 2 < d then f + 1 else if even f then f else f + 1)"

text \<open>The binary exponent \<open>\<lfloor>log\<^sub>2 q\<rfloor>\<close> of a positive rational.\<close>

definition ilog2 :: "rat \<Rightarrow> int" where
  "ilog2 q = (if 1 \<le> q then bitlen \<lfloor>q\<rfloor> - 1 else - bitlen (\<lceil>1 / q\<rceil> - 1))"

text \<open>
  Rounding a rational to the nearest double, ties to the even significand: 53 bits of
  significand, the smallest exponent \<open>-1022\<close> (below it the spacing stays \<open>2\<^sup>-\<^sup>1\<^sup>0\<^sup>7\<^sup>4\<close>),
  and overflow to an infinity from \<open>2\<^sup>1\<^sup>0\<^sup>2\<^sup>4\<close> on.
\<close>

definition double_of_rat :: "rat \<Rightarrow> pyfloat" where
  "double_of_rat q =
     (if q = 0 then Finite 0
      else let e = max (ilog2 \<bar>q\<bar>) (- 1022);
               ulp = 2 powi (e - 52);
               v = of_int (round_half_even (\<bar>q\<bar> / ulp)) * ulp
           in if 2 powi 1024 \<le> v then (if 0 < q then PosInf else NegInf)
              else Finite (sgn q * v))"

text \<open>\<open>x * y\<close> on floats.\<close>

fun py_float_mul :: "pyfloat \<Rightarrow> pyfloat \<Rightarrow> pyfloat" where
  "py_float_mul (Finite a) (Finite b) = double_of_rat (a * b)"
| "py_float_mul NaN _ = NaN"
| "py_float_mul _ NaN = NaN"
| "py_float_mul (Finite a) PosInf = (if a = 0 then NaN else if 0 < a then PosInf else NegInf)"
| "py_float_mul (Finite a) NegInf = (if a = 0 then NaN else if 0 < a then NegInf else PosInf)"
| "py_float_mul PosInf (Finite b) = (if b = 0 then NaN else if 0 < b then PosInf else NegInf)"
| "py_float_mul NegInf (Finite b) = (if b = 0 then NaN else if 0 < b then NegInf else PosInf)"
| "py_float_mul PosInf PosInf = PosInf"
| "py_float_mul NegInf NegInf = PosInf"
| "py_float_mul PosInf NegInf = NegInf"
| "py_float_mul NegInf PosInf = NegInf"

text \<open>
  \<open>round(x, 2)\<close> on a float: the exact value of \<open>x\<close> is rounded to two decimal places,
  ties to even, and the decimal result is converted back to the nearest double.
  Infinities and NaN round to themselves.
\<close>

fun py_round2_float :: "pyfloat \<Rightarrow> pyfloat" where
  "py_round2_float (Finite x) = double_of_rat (of_int (round_half_even (x * 100)) / 100)"
| "py_round2_float x = x"

subsection \<open>Strings\<close>

text \<open>
  \<open>str.lower()\<close> on code points below 256: the ASCII capitals and the Latin-1 capitals
  \<open>0xC0\<close> to \<open>0xDE\<close> (but the multiplication sign \<open>0xD7\<close>) move up by 32.
\<close>

definition py_lower_char :: "char \<Rightarrow> char" where
  "py_lower_char c =
     (let n = (of_char c :: nat)
      in if (65 \<le> n \<and> n \<le> 90) \<or> (192 \<le> n \<and> n \<le> 222 \<and> n \<noteq> 215)
         then char_of (n + 32) else c)"

definition py_lower :: "string \<Rightarrow> string" where
  "py_lower s = map py_lower_char s"

text \<open>\<open>s.startswith(p)\<close> and the substring test \<open>sub in s\<close>.\<close>

fun starts_with :: "string \<Rightarrow> string \<Rightarrow> bool" where
  "starts_with s [] = True"
| "starts_with [] (p # ps) = False"
| "starts_with (c # cs) (p # ps) = (c = p \<and> starts_with cs ps)"

fun py_in_str :: "string \<Rightarrow> string \<Rightarrow> bool" where
  "py_in_str sub [] = (sub = [])"
| "py_in_str sub (c # cs) = (starts_with (c # cs) sub \<or> py_in_str sub cs)"

section \<open>SimpleNewsAnalyzer\<close>

definition suspicious_words :: "string list" where
  "suspicious_words =
     [''shocking'', ''unbelievable'', ''miracle'', ''secret'', ''conspiracy'',
      ''hoax'', ''scandal'', ''anonymous'', ''claims'', ''allegedly'', ''rumor'',
      ''sources say'', ''viral'', ''sensational'', ''you won't believe'']"

definition credible_words :: "string list" where
  "credible_words =
     [''research'', ''study'', ''evidence'', ''expert'', ''official'',
      ''according to'', ''report'', ''analysis'', ''investigation'',
      ''confirmed'', ''verified'', ''sources confirmed'']"

text \<open>\<open>sum(1 for word in words if word in text)\<close>\<close>

definition count_terms :: "string list \<Rightarrow> string \<Rightarrow> int" where
  "count_terms words text = (\<Sum>word\<leftarrow>filter (\<lambda>word. py_in_str word text) words. 1)"

subsection \<open>The URL pattern\<close>

text \<open>
  \<^verbatim>\<open>http[s]?://(?:[a-zA-Z]|[0-9]|[$-_@.&+]|[!*\(\),]|(?:%[0-9a-fA-F][0-9a-fA-F]))+\<close>
  One round of the repeated group takes one character of the four character classes, tried
  in this order, or else a percent sign with two hexadecimal digits.
\<close>

definition url_class :: "char \<Rightarrow> bool" where
  "url_class c =
     (let n = (of_char c :: nat)
      in (97 \<le> n \<and> n \<le> 122) \<or> (65 \<le> n \<and> n \<le> 90)
         \<or> (48 \<le> n \<and> n \<le> 57)
         \<or> (36 \<le> n \<and> n \<le> 95) \<or> n = 64 \<or> n = 46 \<or> n = 38 \<or> n = 43
         \<or> n = 33 \<or> n = 42 \<or> n = 40 \<or> n = 41 \<or> n = 44)"

definition is_hex :: "char \<Rightarrow> bool" where
  "is_hex c =
     (let n = (of_char c :: nat)
      in (48 \<le> n \<and> n \<le> 57) \<or> (97 \<le> n \<and> n \<le> 102) \<or> (65 \<le> n \<and> n \<le> 70))"

fun url_item :: "string \<Rightarrow> nat option" where
  "url_item [] = None"
| "url_item (c # cs) =
     (if url_class c then Some 1
      else (case cs of
              h1 # h2 # _ \<Rightarrow> if c = CHR ''%'' \<and> is_hex h1 \<and> is_hex h2 then Some 3 else None
            | _ \<Rightarrow> None))"

text \<open>The greedy repetition: how many characters the rounds take together.\<close>

function url_run :: "string \<Rightarrow> nat" where
  "url_run s = (case url_item s of None \<Rightarrow> 0 | Some k \<Rightarrow> k + url_run (drop k s))"
  by pat_completeness auto
termination
proof (relation "measure length")
  show "wf (measure length)" by simp
next
  fix s :: string and k
  assume "url_item s = Some k"
  then have "0 < k \<and> s \<noteq> []"
    by (cases s) (auto split: if_splits list.splits)
  then show "(drop k s, s) \<in> measure length" by simp
qed

declare url_run.simps [simp del]

text \<open>The pattern anchored at the start of \<open>s\<close>: the length of its match.\<close>

definition match_url :: "string \<Rightarrow> nat option" where
  "match_url s =
     (if starts_with s ''http'' then
        (case (if starts_with (drop 4 s) ''s://'' then Some 8
               else if starts_with (drop 4 s) ''://'' then Some 7 else None) of
           None \<Rightarrow> None
         | Some n \<Rightarrow> (let k = url_run (drop n s) in if 0 < k then Some (n + k) else None))
      else None)"

text \<open>\<open>re.findall(pattern, s)\<close>: the matches from left to right, none overlapping.\<close>

function findall_url :: "string \<Rightarrow> string list" where
  "findall_url [] = []"
| "findall_url (c # cs) =
     (case match_url (c # cs) of
        Some n \<Rightarrow> take n (c # cs) # findall_url (drop n (c # cs))
      | None \<Rightarrow> findall_url cs)"
  by pat_completeness auto
termination
proof (relation "measure length")
  show "wf (measure length)" by simp
next
  fix c :: char and cs n
  assume "match_url (c # cs) = Some n"
  then have "0 < n"
    by (auto simp: match_url_def Let_def split: if_splits option.splits)
  then show "(drop n (c # cs), c # cs) \<in> measure length" by simp
next
  fix c :: char and cs
  show "(cs, c # cs) \<in> measure length" by simp
qed

subsection \<open>analyze_text\<close>

record prediction =
  labels :: "string list"
  scores :: "pyfloat list"

definition analyze_text :: "string \<Rightarrow> prediction" where
  "analyze_text text0 =
     (let text = py_lower text0;
          suspicious_count = count_terms suspicious_words text;
          credible_count = count_terms credible_words text;
          urls = findall_url text;
          has_sources = (0 < length urls)
      in if credible_count + 1 < suspicious_count
         then \<lparr>labels = [''potentially misleading''], scores = [double_of_rat (7 / 10)]\<rparr>
         else if suspicious_count < credible_count \<or> has_sources
         then \<lparr>labels = [''likely reliable''], scores = [double_of_rat (7 / 10)]\<rparr>
         else \<lparr>labels = [''unverified''], scores = [double_of_rat (5 / 10)]\<rparr>)"

subsection \<open>Values, exceptions, containers\<close>

text \<open>What \<open>response.json()\<close> can return: the Python image of a JSON document.\<close>

datatype pyval =
    PNone
  | PBool bool
  | PInt int
  | PFloat pyfloat
  | PStr string
  | PList "pyval list"
  | PDict "(string \<times> pyval) list"

text \<open>
  The text of a raised \<open>Exception(msg)\<close>: a literal, or the f-string
  \<open>f"NewsAPI error: {v}"\<close> with its value kept as it is.
\<close>

datatype exc_text = Literal string | NewsAPI_error pyval

text \<open>
  \<open>Not_modelled\<close> is no exception: it marks an input that lies outside of the model (a
  string with a character beyond code point 255), for which the model makes no statement.
\<close>

datatype error =
    KeyError "string option"
  | IndexError
  | AttributeError
  | TypeError
  | ZeroDivisionError
  | OverflowError
  | JSONDecodeError
  | Not_modelled
  | BadRequestKeyError string
  | RequestException
  | OSError
  | PyException exc_text

text \<open>
  Sequencing: the exception of the first step is the exception of the whole, and the next
  step runs on the value otherwise.
\<close>

definition and_then :: "error + 'a \<Rightarrow> ('a \<Rightarrow> error + 'b) \<Rightarrow> error + 'b" where
  "and_then m f = (case m of Inl e \<Rightarrow> Inl e | Inr x \<Rightarrow> f x)"

text \<open>The result of \<open>round(x, 2)\<close>: an int stays an int.\<close>

datatype pynum = PyInt int | PyFloat pyfloat

text \<open>
  \<open>a / b\<close> on ints: the quotient rounded once to the nearest double;
  it raises when the divisor is 0 and when the result is too large for a float.
\<close>

definition py_truediv :: "int \<Rightarrow> int \<Rightarrow> error + pyfloat" where
  "py_truediv a b =
     (if b = 0 then Inl ZeroDivisionError
      else (case double_of_rat (of_int a / of_int b) of
              Finite q \<Rightarrow> Inr (Finite q)
            | _ \<Rightarrow> Inl OverflowError))"

text \<open>
  A dict is an association list in insertion order with no key twice. \<open>d[k] = v\<close>
  replaces the value of a key that is there and adds a new key at the end.
\<close>

fun dict_get :: "('k \<times> 'v) list \<Rightarrow> 'k \<Rightarrow> 'v option" where
  "dict_get [] k = None"
| "dict_get ((k', v) # d) k = (if k' = k then Some v else dict_get d k)"

fun dict_set :: "'k \<Rightarrow> 'v \<Rightarrow> ('k \<times> 'v) list \<Rightarrow> ('k \<times> 'v) list" where
  "dict_set k v [] = [(k, v)]"
| "dict_set k v ((k', v') # d) = (if k' = k then (k, v) # d else (k', v') # dict_set k v d)"

text \<open>\<open>xs[i]\<close> for \<open>i \<ge> 0\<close>.\<close>

definition py_index :: "'a list \<Rightarrow> nat \<Rightarrow> error + 'a" where
  "py_index xs i = (if i < length xs then Inr (xs ! i) else Inl IndexError)"

subsection \<open>More string operations\<close>

text \<open>
  \<open>s.rfind(sep)\<close> and \<open>s.rsplit(sep, 1)\<close> for a separator of one character: the string
  is cut at the last occurrence of the separator, if there is one.
\<close>

fun rfind :: "char \<Rightarrow> string \<Rightarrow> nat option" where
  "rfind sep [] = None"
| "rfind sep (c # cs) =
     (case rfind sep cs of
        Some i \<Rightarrow> Some (Suc i)
      | None \<Rightarrow> if c = sep then Some 0 else None)"

definition py_rsplit1 :: "char \<Rightarrow> string \<Rightarrow> string list" where
  "py_rsplit1 sep s =
     (case rfind sep s of None \<Rightarrow> [s] | Some i \<Rightarrow> [take i s, drop (Suc i) s])"

text \<open>
  \<open>s.strip()\<close>: the white space of \<open>str.isspace\<close> below code point 256 is removed at
  both ends.
\<close>

definition py_isspace :: "char \<Rightarrow> bool" where
  "py_isspace c =
     (let n = (of_char c :: nat)
      in (9 \<le> n \<and> n \<le> 13) \<or> (28 \<le> n \<and> n \<le> 32) \<or> n = 133 \<or> n = 160)"

definition py_strip :: "string \<Rightarrow> string" where
  "py_strip s = rev (dropWhile py_isspace (rev (dropWhile py_isspace s)))"

text \<open>\<open>str(n)\<close> for an int.\<close>

definition digit_char :: "nat \<Rightarrow> char" where
  "digit_char d = char_of (48 + d)"

fun str_nat :: "nat \<Rightarrow> string" where
  "str_nat n = (if n < 10 then [digit_char n] else str_nat (n div 10) @ [digit_char (n mod 10)])"

declare str_nat.simps [simp del]

definition str_int :: "int \<Rightarrow> string" where
  "str_int i = (if i < 0 then CHR ''-'' # str_nat (nat (- i)) else str_nat (nat i))"

text \<open>\<open>sep.join(xs)\<close>\<close>

fun py_join :: "string \<Rightarrow> string list \<Rightarrow> string" where
  "py_join sep [] = []"
| "py_join sep [x] = x"
| "py_join sep (x # y # ys) = x @ sep @ py_join sep (y # ys)"

text \<open>
  \<open>os.path.join(a, b)\<close> on POSIX: an absolute second part replaces the first.
\<close>

definition os_path_join :: "string \<Rightarrow> string \<Rightarrow> string" where
  "os_path_join a b =
     (if starts_with b ''/'' then b
      else if a = [] \<or> last a = CHR ''/'' then a @ b
      else a @ ''/'' @ b)"

section \<open>The JSON files\<close>

subsection \<open>json.dump\<close>

text \<open>
  \<open>json.dump\<close> with its default settings: \<open>", "\<close> between items, \<open>": "\<close> after a
  key, and strings escaped to ASCII. The quote and the backslash get a backslash, five
  control characters have a short escape, and every other character outside of the range
  from the space to the tilde is written \<open>\u00XX\<close> in lower-case hexadecimal.
\<close>

definition hex_char :: "nat \<Rightarrow> char" where
  "hex_char d = (if d < 10 then char_of (48 + d) else char_of (87 + d))"

definition json_escape_char :: "char \<Rightarrow> string" where
  "json_escape_char c =
     (if c = CHR 0x22 then [CHR 0x5C, CHR 0x22]
      else if c = CHR 0x5C then [CHR 0x5C, CHR 0x5C]
      else if c = CHR 0x0A then [CHR 0x5C, CHR ''n'']
      else if c = CHR 0x0D then [CHR 0x5C, CHR ''r'']
      else if c = CHR 0x09 then [CHR 0x5C, CHR ''t'']
      else if c = CHR 0x08 then [CHR 0x5C, CHR ''b'']
      else if c = CHR 0x0C then [CHR 0x5C, CHR ''f'']
      else if 32 \<le> (of_char c :: nat) \<and> (of_char c :: nat) \<le> 126 then [c]
      else [CHR 0x5C, CHR ''u'', CHR ''0'', CHR ''0'',
            hex_char (of_char c div 16), hex_char (of_char c mod 16)])"

definition json_string :: "string \<Rightarrow> string" where
  "json_string s = CHR 0x22 # concat (map json_escape_char s) @ [CHR 0x22]"

text \<open>A dict key that is \<open>None\<close> is written as the string \<open>"null"\<close>.\<close>

definition json_key :: "string option \<Rightarrow> string" where
  "json_key k = (case k of None \<Rightarrow> json_string ''null'' | Some s \<Rightarrow> json_string s)"

definition json_object :: "(string \<times> string) list \<Rightarrow> string" where
  "json_object items = ''{'' @ py_join '', '' (map (\<lambda>(k, v). k @ '': '' @ v) items) @ ''}''"

definition json_array :: "string list \<Rightarrow> string" where
  "json_array items = ''['' @ py_join '', '' items @ '']''"

text \<open>
  The feedback store is a dict from the article identifier to a dict of counters.
  Identifier and counter name are looked up with form fields, which are \<open>None\<close> when
  the request has no such field: a key is a string or \<open>None\<close>.
\<close>

type_synonym feedback_record = "(string option \<times> int) list"
type_synonym feedback_dict = "(string option \<times> feedback_record) list"

definition dumps_record :: "feedback_record \<Rightarrow> string" where
  "dumps_record r = json_object (map (\<lambda>(k, n). (json_key k, str_int n)) r)"

definition dumps_feedback :: "feedback_dict \<Rightarrow> string" where
  "dumps_feedback d = json_object (map (\<lambda>(k, r). (json_key k, dumps_record r)) d)"

text \<open>The upload store is a list of dicts with the keys \<open>filename\<close> and \<open>topic\<close>.\<close>

record upload =
  filename :: string
  topic :: "string option"

definition dumps_upload :: "upload \<Rightarrow> string" where
  "dumps_upload u =
     json_object
       [(json_string ''filename'', json_string (filename u)),
        (json_string ''topic'', (case topic u of None \<Rightarrow> ''null'' | Some t \<Rightarrow> json_string t))]"

definition dumps_uploads :: "upload list \<Rightarrow> string" where
  "dumps_uploads us = json_array (map dumps_upload us)"

subsection \<open>json.load\<close>

text \<open>
  The decoder reads one value and then only white space up to the end. Its limits on the
  depth of nesting and on the number of digits of an integer are not modelled.
\<close>

definition is_ws :: "char \<Rightarrow> bool" where
  "is_ws c = (let n = (of_char c :: nat) in n = 32 \<or> n = 9 \<or> n = 10 \<or> n = 13)"

definition skip_ws :: "string \<Rightarrow> string" where
  "skip_ws s = dropWhile is_ws s"

definition hex_val :: "char \<Rightarrow> nat option" where
  "hex_val c =
     (let n = (of_char c :: nat)
      in if 48 \<le> n \<and> n \<le> 57 then Some (n - 48)
         else if 97 \<le> n \<and> n \<le> 102 then Some (n - 87)
         else if 65 \<le> n \<and> n \<le> 70 then Some (n - 55)
         else None)"

definition decode_uXXXX :: "char \<Rightarrow> char \<Rightarrow> char \<Rightarrow> char \<Rightarrow> nat option" where
  "decode_uXXXX h1 h2 h3 h4 =
     (case (hex_val h1, hex_val h2, hex_val h3, hex_val h4) of
        (Some a, Some b, Some c, Some d) \<Rightarrow> Some (((a * 16 + b) * 16 + c) * 16 + d)
      | _ \<Rightarrow> None)"

text \<open>The character after a backslash, when it is not \<open>u\<close>.\<close>

definition unescape :: "char \<Rightarrow> char option" where
  "unescape e =
     (if e = CHR 0x22 then Some (CHR 0x22)
      else if e = CHR 0x5C then Some (CHR 0x5C)
      else if e = CHR ''/'' then Some (CHR ''/'')
      else if e = CHR ''b'' then Some (CHR 0x08)
      else if e = CHR ''f'' then Some (CHR 0x0C)
      else if e = CHR ''n'' then Some (CHR 0x0A)
      else if e = CHR ''r'' then Some (CHR 0x0D)
      else if e = CHR ''t'' then Some (CHR 0x09)
      else None)"

definition cons_char :: "char \<Rightarrow> error + string \<times> string \<Rightarrow> error + string \<times> string" where
  "cons_char c res = (case res of Inl e \<Rightarrow> Inl e | Inr (s, r) \<Rightarrow> Inr (c # s, r))"

text \<open>
  The string that starts behind an opening quote, and the text behind its closing quote.
  A control character in the string is an error; an escape \<open>\uXXXX\<close> from 256 on leaves
  the model.
\<close>

fun scanstring :: "string \<Rightarrow> error + string \<times> string" where
  "scanstring [] = Inl JSONDecodeError"
| "scanstring (c # cs) =
     (if c = CHR 0x22 then Inr ([], cs)
      else if c = CHR 0x5C then
        (case cs of
           [] \<Rightarrow> Inl JSONDecodeError
         | e # r \<Rightarrow>
             (if e = CHR ''u'' then
                (case r of
                   h1 # h2 # h3 # h4 # r' \<Rightarrow>
                     (case decode_uXXXX h1 h2 h3 h4 of
                        None \<Rightarrow> Inl JSONDecodeError
                      | Some n \<Rightarrow>
                          (if n < 256 then cons_char (char_of n) (scanstring r')
                           else Inl Not_modelled))
                 | _ \<Rightarrow> Inl JSONDecodeError)
              else (case unescape e of
                      None \<Rightarrow> Inl JSONDecodeError
                    | Some ch \<Rightarrow> cons_char ch (scanstring r))))
      else if (of_char c :: nat) < 32 then Inl JSONDecodeError
      else cons_char c (scanstring cs))"

text \<open>
  A number: an optional minus sign, the digits of the integer part (one digit when it is
  0), a fraction when a point and a digit follow, an exponent when \<open>e\<close> or \<open>E\<close>, an
  optional sign and a digit follow. Without fraction and exponent it is an int, else the
  double nearest to the decimal number.
\<close>

definition is_digit :: "char \<Rightarrow> bool" where
  "is_digit c = (let n = (of_char c :: nat) in 48 \<le> n \<and> n \<le> 57)"

definition digits_val :: "string \<Rightarrow> nat" where
  "digits_val ds = foldl (\<lambda>a d. 10 * a + (of_char d - 48)) 0 ds"

definition int_digits :: "string \<Rightarrow> string" where
  "int_digits s =
     (case s of
        [] \<Rightarrow> []
      | c # cs \<Rightarrow> if c = CHR ''0'' then [c] else takeWhile is_digit s)"

definition frac_digits :: "string \<Rightarrow> string" where
  "frac_digits s =
     (case s of
        p # d # r \<Rightarrow> if p = CHR ''.'' \<and> is_digit d then takeWhile is_digit (d # r) else []
      | _ \<Rightarrow> [])"

text \<open>The exponent and the text behind it, if there is an exponent.\<close>

definition exponent :: "string \<Rightarrow> (int \<times> string) option" where
  "exponent s =
     (case s of
        [] \<Rightarrow> None
      | e # r \<Rightarrow>
          (if e = CHR ''e'' \<or> e = CHR ''E'' then
             (let (sg, r1) =
                    (case r of
                       [] \<Rightarrow> (1, r)
                     | c # r' \<Rightarrow>
                         if c = CHR ''-'' then (- 1, r')
                         else if c = CHR ''+'' then (1, r') else (1, r));
                  ds = takeWhile is_digit r1
              in if ds = [] then None
                 else Some (sg * int (digits_val ds), drop (length ds) r1))
           else None))"

definition parse_number :: "string \<Rightarrow> error + pyval \<times> string" where
  "parse_number s =
     (let neg = (s \<noteq> [] \<and> hd s = CHR ''-'');
          s1 = (if neg then tl s else s);
          ds = int_digits s1
      in if ds = [] then Inl JSONDecodeError
         else
           (let s2 = drop (length ds) s1;
                fs = frac_digits s2;
                s3 = (if fs = [] then s2 else drop (Suc (length fs)) s2);
                ex = exponent s3;
                s4 = (case ex of None \<Rightarrow> s3 | Some (k, r) \<Rightarrow> r);
                sign = (if neg then - 1 else 1)
            in if fs = [] \<and> ex = None then Inr (PInt (sign * int (digits_val ds)), s4)
               else Inr (PFloat (double_of_rat
                           (of_int sign * of_nat (digits_val (ds @ fs))
                              * 10 powi ((case ex of None \<Rightarrow> 0 | Some (k, r) \<Rightarrow> k)
                                         - int (length fs)))), s4)))"

text \<open>
  A value that starts at the head of the text, the items of an array from the place where
  an item has to start, and the members of an object from the place where a key has to
  start. A key that comes again replaces the value and keeps its place. The two tests on
  the lengths in the loops are always true (a value takes at least one character); with
  them the definition is seen to terminate.
\<close>

function parse_value :: "string \<Rightarrow> error + pyval \<times> string"
  and parse_elements :: "pyval list \<Rightarrow> string \<Rightarrow> error + pyval \<times> string"
  and parse_members :: "(string \<times> pyval) list \<Rightarrow> string \<Rightarrow> error + pyval \<times> string"
where
  "parse_value s =
     (case s of
        [] \<Rightarrow> Inl JSONDecodeError
      | c # cs \<Rightarrow>
          (if c = CHR 0x22 then
             (case scanstring cs of Inl e \<Rightarrow> Inl e | Inr (x, r) \<Rightarrow> Inr (PStr x, r))
           else if c = CHR 0x7B then
             (case skip_ws cs of
                [] \<Rightarrow> Inl JSONDecodeError
              | d # r \<Rightarrow>
                  (if d = CHR 0x7D then Inr (PDict [], r) else parse_members [] (skip_ws cs)))
           else if c = CHR 0x5B then
             (case skip_ws cs of
                [] \<Rightarrow> Inl JSONDecodeError
              | d # r \<Rightarrow>
                  (if d = CHR 0x5D then Inr (PList [], r) else parse_elements [] (skip_ws cs)))
           else if starts_with s ''null'' then Inr (PNone, drop 4 s)
           else if starts_with s ''true'' then Inr (PBool True, drop 4 s)
           else if starts_with s ''false'' then Inr (PBool False, drop 5 s)
           else if starts_with s ''NaN'' then Inr (PFloat NaN, drop 3 s)
           else if starts_with s ''Infinity'' then Inr (PFloat PosInf, drop 8 s)
           else if starts_with s ''-Infinity'' then Inr (PFloat NegInf, drop 9 s)
           else parse_number s))"
| "parse_elements acc s =
     (case parse_value s of
        Inl e \<Rightarrow> Inl e
      | Inr (v, r) \<Rightarrow>
          (case skip_ws r of
             [] \<Rightarrow> Inl JSONDecodeError
           | d # r' \<Rightarrow>
               (if d = CHR 0x5D then Inr (PList (acc @ [v]), r')
                else if d = CHR '','' \<and> length r' < length s
                then parse_elements (acc @ [v]) (skip_ws r')
                else Inl JSONDecodeError)))"
| "parse_members acc s =
     (case s of
        [] \<Rightarrow> Inl JSONDecodeError
      | q # cs \<Rightarrow>
          (if q \<noteq> CHR 0x22 then Inl JSONDecodeError
           else
             (case scanstring cs of
                Inl e \<Rightarrow> Inl e
              | Inr (key, r1) \<Rightarrow>
                  (case skip_ws r1 of
                     [] \<Rightarrow> Inl JSONDecodeError
                   | d # r2 \<Rightarrow>
                       (if d \<noteq> CHR '':'' \<or> \<not> length r2 < length s then Inl JSONDecodeError
                        else
                          (case parse_value (skip_ws r2) of
                             Inl e \<Rightarrow> Inl e
                           | Inr (v, r3) \<Rightarrow>
                               (case skip_ws r3 of
                                  [] \<Rightarrow> Inl JSONDecodeError
                                | d' # r4 \<Rightarrow>
                                    (if d' = CHR 0x7D then Inr (PDict (dict_set key v acc), r4)
                                     else if d' = CHR '','' \<and> length r4 < length s
                                     then parse_members (dict_set key v acc) (skip_ws r4)
                                     else Inl JSONDecodeError))))))))"
  by pat_completeness auto
termination
proof (relation "measure (\<lambda>x. case x of
                             Inl s \<Rightarrow> 2 * length s
                           | Inr (Inl (acc, s)) \<Rightarrow> 2 * length s + 1
                           | Inr (Inr (acc, s)) \<Rightarrow> 2 * length s + 1)", goal_cases)
  case 1
  show ?case by simp
next
  case (2 s c cs d r)
  then show ?case using length_dropWhile_le [of is_ws cs] by (simp add: skip_ws_def)
next
  case (3 s c cs d r)
  then show ?case using length_dropWhile_le [of is_ws cs] by (simp add: skip_ws_def)
next
  case (4 acc s)
  show ?case by simp
next
  case (5 acc s x v r d r')
  then show ?case using length_dropWhile_le [of is_ws r'] by (simp add: skip_ws_def)
next
  case (6 acc s q cs x key r1 d r2)
  then show ?case using length_dropWhile_le [of is_ws r2] by (simp add: skip_ws_def)
next
  case (7 acc s q cs x key r1 d r2 y v r3 d' r4)
  then show ?case using length_dropWhile_le [of is_ws r4] by (simp add: skip_ws_def)
qed

declare parse_value.simps [simp del]
declare parse_elements.simps [simp del]
declare parse_members.simps [simp del]

definition json_loads :: "string \<Rightarrow> error + pyval" where
  "json_loads s =
     (case parse_value (skip_ws s) of
        Inl e \<Rightarrow> Inl e
      | Inr (v, r) \<Rightarrow> if skip_ws r = [] then Inr v else Inl JSONDecodeError)"

text \<open>
  \<open>feedback_store = json.load(f)\<close>: the decoder raises, or the document is a feedback
  store (an object of objects of ints), or it is another value, which the process takes
  as its store all the same.
\<close>

fun as_counter :: "string \<times> pyval \<Rightarrow> (string option \<times> int) option" where
  "as_counter (k, PInt n) = Some (Some k, n)"
| "as_counter (k, _) = None"

fun as_record :: "string \<times> pyval \<Rightarrow> (string option \<times> feedback_record) option" where
  "as_record (k, PDict d) = map_option (Pair (Some k)) (those (map as_counter d))"
| "as_record (k, _) = None"

fun as_feedback_dict :: "pyval \<Rightarrow> feedback_dict option" where
  "as_feedback_dict (PDict d) = those (map as_record d)"
| "as_feedback_dict _ = None"

datatype loaded_store = Loaded feedback_dict | Load_raised error | Other_value pyval

definition load_feedback :: "string \<Rightarrow> loaded_store" where
  "load_feedback text =
     (case json_loads text of
        Inl e \<Rightarrow> Load_raised e
      | Inr v \<Rightarrow> (case as_feedback_dict v of Some d \<Rightarrow> Loaded d | None \<Rightarrow> Other_value v))"

section \<open>Articles and the news fetcher\<close>

text \<open>
  An article is a dict with a fixed choice of keys. \<open>fetch_news\<close> builds it with title,
  description, url, urlToImage and source; \<open>fetch_url_content\<close> builds it with title,
  description and url, and its title is \<open>None\<close> when the page's title tag holds no
  string. The handler adds the other five keys. A key that the dict does not have yet is
  \<open>None\<close> in the fields of type option other than the title.
\<close>

record article =
  title :: "string option"
  description :: string
  url :: pyval
  urlToImage :: "pyval option"
  source :: "pyval option"
  prediction :: "string option"
  confidence :: "string option"
  article_id :: "string option"
  real_percentage :: "pynum option"
  fake_percentage :: "pynum option"

text \<open>Truth value of a value, \<open>obj.get(key, default)\<close>, \<open>obj[key]\<close>, \<open>obj.strip()\<close>.\<close>

fun py_truthy :: "pyval \<Rightarrow> bool" where
  "py_truthy PNone = False"
| "py_truthy (PBool b) = b"
| "py_truthy (PInt i) = (i \<noteq> 0)"
| "py_truthy (PFloat x) = (x \<noteq> Finite 0)"
| "py_truthy (PStr s) = (s \<noteq> [])"
| "py_truthy (PList xs) = (xs \<noteq> [])"
| "py_truthy (PDict d) = (d \<noteq> [])"

fun py_get :: "pyval \<Rightarrow> string \<Rightarrow> pyval \<Rightarrow> error + pyval" where
  "py_get (PDict d) k dflt = Inr (case dict_get d k of Some v \<Rightarrow> v | None \<Rightarrow> dflt)"
| "py_get _ k dflt = Inl AttributeError"

fun py_getitem :: "pyval \<Rightarrow> string \<Rightarrow> error + pyval" where
  "py_getitem (PDict d) k = (case dict_get d k of Some v \<Rightarrow> Inr v | None \<Rightarrow> Inl (KeyError (Some k)))"
| "py_getitem _ k = Inl TypeError"

fun py_strip_method :: "pyval \<Rightarrow> error + string" where
  "py_strip_method (PStr s) = Inr (py_strip s)"
| "py_strip_method _ = Inl AttributeError"

text \<open>
  The values that a \<open>for\<close> loop over a value goes through; \<open>len\<close> raises for the same
  values as the loop does.
\<close>

fun py_iter :: "pyval \<Rightarrow> error + pyval list" where
  "py_iter (PList xs) = Inr xs"
| "py_iter (PDict d) = Inr (map (\<lambda>(k, v). PStr k) d)"
| "py_iter (PStr s) = Inr (map (\<lambda>c. PStr [c]) s)"
| "py_iter _ = Inl TypeError"

text \<open>
  One round of the loop of \<open>fetch_news\<close>: the cleaned article, or \<open>None\<close> when the
  article is skipped.
\<close>

definition clean_article :: "pyval \<Rightarrow> error + article option" where
  "clean_article a =
     and_then (py_get a ''title'' PNone) (\<lambda>t.
       if \<not> py_truthy t then Inr None else
     and_then (py_get a ''description'' PNone) (\<lambda>d.
       if \<not> py_truthy d then Inr None else
     and_then (py_get a ''url'' PNone) (\<lambda>u.
       if \<not> py_truthy u then Inr None else
     and_then (py_getitem a ''title'') (\<lambda>t1.
     and_then (py_strip_method t1) (\<lambda>t2.
     and_then (py_getitem a ''description'') (\<lambda>d1.
     and_then (py_strip_method d1) (\<lambda>d2.
     and_then (py_getitem a ''url'') (\<lambda>u1.
     and_then (py_get a ''urlToImage'' (PStr [])) (\<lambda>img.
     and_then (py_get a ''source'' (PDict [])) (\<lambda>src.
     and_then (py_get src ''name'' (PStr ''Unknown Source'')) (\<lambda>name.
       Inr (Some \<lparr>title = Some t2, description = d2, url = u1,
                  urlToImage = Some img, source = Some name,
                  prediction = None, confidence = None, article_id = None,
                  real_percentage = None, fake_percentage = None\<rparr>))))))))))))"

fun valid_articles :: "pyval list \<Rightarrow> error + article list" where
  "valid_articles [] = Inr []"
| "valid_articles (a # as) =
     (case clean_article a of
        Inl e \<Rightarrow> Inl e
      | Inr c \<Rightarrow>
          (case valid_articles as of
             Inl e \<Rightarrow> Inl e
           | Inr cs \<Rightarrow> Inr (case c of None \<Rightarrow> cs | Some x \<Rightarrow> x # cs)))"

text \<open>
  The answer of \<open>requests.get\<close>: the status code and what \<open>response.json()\<close> returns
  or raises. The network is a parameter: \<open>requests_get\<close> gives for a URL the response or
  the exception.
\<close>

record http_response =
  status_code :: int
  json_body :: "error + pyval"

definition news_url :: "string \<Rightarrow> string" where
  "news_url query =
     ''https://newsapi.org/v2/everything?'' @ ''q='' @ query
       @ ''&apiKey='' @ ''449b98e7d52e49ee901f800a11ad5db1''
       @ ''&pageSize=10&language=en&sortBy=relevancy''"

definition fetch_news_try :: "(string \<Rightarrow> error + http_response) \<Rightarrow> string \<Rightarrow> error + article list" where
  "fetch_news_try requests_get query =
     and_then (requests_get (news_url query)) (\<lambda>response.
       if status_code response \<noteq> 200 then
         and_then (json_body response) (\<lambda>body.
         and_then (py_get body ''message'' (PStr ''Unknown error'')) (\<lambda>m.
           Inl (PyException (NewsAPI_error m))))
       else
         and_then (json_body response) (\<lambda>news_data.
         and_then (py_get news_data ''articles'' (PList [])) (\<lambda>articles.
         and_then (py_iter articles) (\<lambda>as.
           valid_articles as))))"

text \<open>
  The two \<open>except\<close> clauses: a \<open>RequestException\<close> becomes the exception about the
  connection, every other exception is raised again.
\<close>

definition fetch_news :: "(string \<Rightarrow> error + http_response) \<Rightarrow> string \<Rightarrow> error + article list" where
  "fetch_news requests_get query =
     (case fetch_news_try requests_get query of
        Inl RequestException \<Rightarrow>
          Inl (PyException (Literal
            ''Failed to connect to news service. Please check your internet connection.''))
      | Inl e \<Rightarrow> Inl e
      | Inr as \<Rightarrow> Inr as)"

section \<open>What the handlers answer\<close>

text \<open>
  The error message of the page is a literal or \<open>str(e)\<close> of an exception. The page of
  \<open>index\<close> is the keyword arguments of \<open>render_template\<close>; \<open>search_performed\<close> is
  passed by the early return only.
\<close>

datatype page_message = Message string | Str_of error

record index_page =
  page_articles :: "article list"
  page_uploads :: "upload list"
  page_error_message :: "page_message option"
  page_search_performed :: "bool option"

datatype response =
    Redirect string
  | Render_upload
  | Render_index index_page

section \<open>The stores and the handlers that change them\<close>

text \<open>
  The state of the process: the two stores in memory, the text of their two files, and the
  files saved under the upload folder. Writing a store file always goes through.
\<close>

record app_state =
  feedback_store :: feedback_dict
  uploads_store :: "upload list"
  FEEDBACK_FILE :: string
  UPLOADS_FILE :: string
  saved_files :: "string \<rightharpoonup> string"

definition save_feedback :: "app_state \<Rightarrow> app_state" where
  "save_feedback st = st\<lparr>FEEDBACK_FILE := dumps_feedback (feedback_store st)\<rparr>"

definition save_uploads :: "app_state \<Rightarrow> app_state" where
  "save_uploads st = st\<lparr>UPLOADS_FILE := dumps_uploads (uploads_store st)\<rparr>"

subsection \<open>get_feedback_percentages\<close>

text \<open>
  The result dict is the pair of its values \<open>real_percentage\<close> and \<open>fake_percentage\<close>.
\<close>

definition dict_getitem :: "(string option \<times> 'v) list \<Rightarrow> string option \<Rightarrow> error + 'v" where
  "dict_getitem d k = (case dict_get d k of None \<Rightarrow> Inl (KeyError k) | Some v \<Rightarrow> Inr v)"

definition get_feedback_percentages :: "feedback_dict \<Rightarrow> string option \<Rightarrow> error + pynum \<times> pynum" where
  "get_feedback_percentages store news_id =
     (let feedback = (case dict_get store news_id of
                        Some r \<Rightarrow> r
                      | None \<Rightarrow> [(Some ''real'', 0), (Some ''fake'', 0)])
      in and_then (dict_getitem feedback (Some ''real'')) (\<lambda>r.
         and_then (dict_getitem feedback (Some ''fake'')) (\<lambda>f.
           let total = r + f
           in if 0 < total then
                and_then (py_truediv r total) (\<lambda>q1.
                and_then (py_truediv f total) (\<lambda>q2.
                  Inr (PyFloat (py_round2_float (py_float_mul q1 (Finite 100))),
                       PyFloat (py_round2_float (py_float_mul q2 (Finite 100))))))
              else Inr (PyInt 0, PyInt 0))))"

subsection \<open>The feedback handler\<close>

record feedback_request =
  form_news_id :: "string option"
  form_is_real :: "string option"

text \<open>
  \<open>feedback_store[news_id][is_real] += 1\<close> reads the counter before it writes it, so a
  kind that is no key of the record raises \<open>KeyError\<close>; by then a new identifier has its
  record in memory, and the file has not been written.
\<close>

definition feedback :: "app_state \<Rightarrow> feedback_request \<Rightarrow> (error + response) \<times> app_state" where
  "feedback st req =
     (let news_id = form_news_id req;
          is_real = form_is_real req;
          st1 = (if dict_get (feedback_store st) news_id = None
                 then st\<lparr>feedback_store :=
                          dict_set news_id [(Some ''real'', 0), (Some ''fake'', 0)] (feedback_store st)\<rparr>
                 else st)
      in case dict_getitem (feedback_store st1) news_id of
           Inl e \<Rightarrow> (Inl e, st1)
         | Inr r \<Rightarrow>
             (case dict_getitem r is_real of
                Inl e \<Rightarrow> (Inl e, st1)
              | Inr n \<Rightarrow>
                  (Inr (Redirect ''index''),
                   save_feedback
                     (st1\<lparr>feedback_store :=
                            dict_set news_id (dict_set is_real (n + 1) r) (feedback_store st1)\<rparr>))))"

subsection \<open>The upload handler\<close>

definition ALLOWED_EXTENSIONS :: "string list" where
  "ALLOWED_EXTENSIONS = [''txt'', ''pdf'', ''png'', ''jpg'', ''jpeg'', ''mp4'']"

definition UPLOAD_FOLDER :: string where
  "UPLOAD_FOLDER = ''static/uploads/''"

text \<open>
  \<open>"." in filename and filename.rsplit(".", 1)[1].lower() in ALLOWED_EXTENSIONS\<close>;
  the second operand is evaluated only when the first holds.
\<close>

definition allowed_file :: "string \<Rightarrow> error + bool" where
  "allowed_file fname =
     (if py_in_str ''.'' fname
      then (case py_index (py_rsplit1 (CHR ''.'') fname) 1 of
              Inl e \<Rightarrow> Inl e
            | Inr ext \<Rightarrow> Inr (py_lower ext \<in> set ALLOWED_EXTENSIONS))
      else Inr False)"

text \<open>
  The uploaded file of the request (\<open>request.files["file"]\<close>); it counts as false when
  its file name is empty. Whether \<open>file.save\<close> can write a path is up to the file system:
  \<open>save_file\<close> gives the exception it raises, if any.
\<close>

record file_storage =
  fs_filename :: string
  fs_content :: string

record upload_request =
  upload_method :: string
  form_topic :: "string option"
  files_file :: "file_storage option"

definition upload ::
  "(string \<Rightarrow> error option) \<Rightarrow> app_state \<Rightarrow> upload_request \<Rightarrow> (error + response) \<times> app_state" where
  "upload save_file st req =
     (if upload_method req = ''POST'' then
        (case files_file req of
           None \<Rightarrow> (Inl (BadRequestKeyError ''file''), st)
         | Some file \<Rightarrow>
             (case (if fs_filename file \<noteq> [] then allowed_file (fs_filename file) else Inr False) of
                Inl e \<Rightarrow> (Inl e, st)
              | Inr False \<Rightarrow> (Inr Render_upload, st)
              | Inr True \<Rightarrow>
                  (let file_path = os_path_join UPLOAD_FOLDER (fs_filename file)
                   in case save_file file_path of
                        Some e \<Rightarrow> (Inl e, st)
                      | None \<Rightarrow>
                          (Inr (Redirect ''upload''),
                           save_uploads
                             (st\<lparr>saved_files := (saved_files st)(file_path \<mapsto> fs_content file),
                                 uploads_store :=
                                   uploads_store st @
                                     [\<lparr>filename = fs_filename file, topic = form_topic req\<rparr>]\<rparr>)))))
      else (Inr Render_upload, st))"

section \<open>The search handler\<close>

text \<open>
  What the handler calls outside of this program is a parameter: \<open>urlparse\<close> (of which
  \<open>is_valid_url\<close> reads the scheme and the netloc), the page fetcher
  \<open>fetch_url_content\<close> (network and HTML parsing; it returns \<open>None\<close> on every failure),
  \<open>requests.get\<close> for the news search, and the detector whose \<open>analyze_text\<close> is
  called for each article.
\<close>

record parse_result =
  scheme :: string
  netloc :: string

record env =
  urlparse :: "string \<Rightarrow> error + parse_result"
  fetch_url_content :: "string \<Rightarrow> article option"
  requests_get :: "string \<Rightarrow> error + http_response"
  detector :: "string \<Rightarrow> error + prediction"

text \<open>The detector of the program itself: it never raises.\<close>

definition fake_news_detector :: "string \<Rightarrow> error + prediction" where
  "fake_news_detector text = Inr (analyze_text text)"

definition is_valid_url :: "env \<Rightarrow> string \<Rightarrow> bool" where
  "is_valid_url env u =
     (case urlparse env u of
        Inl e \<Rightarrow> False
      | Inr result \<Rightarrow> scheme result \<noteq> [] \<and> netloc result \<noteq> [])"

text \<open>
  \<open>f"{x:.0f}%"\<close> for a float: the exact value rounded to an integer, ties to even, with
  the sign of the value.
\<close>

fun py_format_percent :: "pyfloat \<Rightarrow> string" where
  "py_format_percent (Finite x) =
     (if x < 0 then ''-'' else []) @ str_nat (nat \<bar>round_half_even x\<bar>) @ ''%''"
| "py_format_percent PosInf = ''inf%''"
| "py_format_percent NegInf = ''-inf%''"
| "py_format_percent NaN = ''nan%''"

text \<open>
  The body of the inner \<open>try\<close>: the text that is analysed, the first label and the
  formatted first score.
\<close>

definition text_to_analyze :: "article \<Rightarrow> string" where
  "text_to_analyze a =
     (case title a of None \<Rightarrow> ''None'' | Some t \<Rightarrow> t) @ '' '' @ description a"

definition analysis :: "env \<Rightarrow> article \<Rightarrow> error + string \<times> string" where
  "analysis env a =
     and_then (detector env (text_to_analyze a)) (\<lambda>p.
     and_then (py_index (labels p) 0) (\<lambda>l.
     and_then (py_index (scores p) 0) (\<lambda>s.
       Inr (l, py_format_percent (py_float_mul s (Finite 100))))))"

text \<open>
  The inner \<open>try\<close> with its \<open>except\<close>: whatever the body raises, and wherever, the
  article ends with the two replacement values.
\<close>

definition analyse_article :: "env \<Rightarrow> article \<Rightarrow> article" where
  "analyse_article env a =
     (case analysis env a of
        Inr (l, c) \<Rightarrow> a\<lparr>prediction := Some l, confidence := Some c\<rparr>
      | Inl e \<Rightarrow> a\<lparr>prediction := Some ''unable to analyze'', confidence := Some ''N/A''\<rparr>)"

text \<open>
  The loop over the articles from the index \<open>i\<close> on. An exception of the percentage
  lookup leaves the loop: the articles behind it stay as they were fetched.
\<close>

fun annotate :: "env \<Rightarrow> feedback_dict \<Rightarrow> nat \<Rightarrow> article list \<Rightarrow> error option \<times> article list" where
  "annotate env store i [] = (None, [])"
| "annotate env store i (a # as) =
     (let a1 = (analyse_article env a)\<lparr>article_id := Some (str_nat i)\<rparr>
      in case get_feedback_percentages store (Some (str_nat i)) of
           Inl e \<Rightarrow> (Some e, a1 # as)
         | Inr (rp, fp) \<Rightarrow>
             (case annotate env store (Suc i) as of
                (r, as') \<Rightarrow> (r, a1\<lparr>real_percentage := Some rp, fake_percentage := Some fp\<rparr> # as')))"

text \<open>
  \<open>[upload for upload in uploads_store if query.lower() in upload["topic"].lower()]\<close>:
  a topic that is \<open>None\<close> has no \<open>lower\<close>.
\<close>

fun related_uploads :: "upload list \<Rightarrow> string \<Rightarrow> error + upload list" where
  "related_uploads [] query = Inr []"
| "related_uploads (u # us) query =
     (case topic u of
        None \<Rightarrow> Inl AttributeError
      | Some t \<Rightarrow>
          (case related_uploads us query of
             Inl e \<Rightarrow> Inl e
           | Inr r \<Rightarrow> Inr (if py_in_str (py_lower query) (py_lower t) then u # r else r)))"

text \<open>
  The calls to the two fetchers are what the handler does to the outside; it returns them
  with its response. The fetch step gives the articles or the exception of
  \<open>fetch_news\<close>, and the message of a page that could not be fetched.
\<close>

datatype call = Call_fetch_url_content string | Call_fetch_news string

definition fetch_articles ::
  "env \<Rightarrow> string \<Rightarrow> (error + article list) \<times> page_message option \<times> call list" where
  "fetch_articles env query =
     (if is_valid_url env query then
        (case fetch_url_content env query of
           Some url_content \<Rightarrow> (Inr [url_content], None, [Call_fetch_url_content query])
         | None \<Rightarrow>
             (Inr [], Some (Message ''Could not fetch content from the provided URL''),
              [Call_fetch_url_content query]))
      else (fetch_news (requests_get env) query, None, [Call_fetch_news query]))"

record index_request =
  index_method :: string
  form_query :: "string option"

definition index :: "env \<Rightarrow> app_state \<Rightarrow> index_request \<Rightarrow> response \<times> call list" where
  "index env st req =
     (if index_method req = ''POST'' then
        (let query = py_strip (case form_query req of None \<Rightarrow> [] | Some q \<Rightarrow> q)
         in if query = [] then
              (Render_index
                 \<lparr>page_articles = [], page_uploads = [],
                  page_error_message = Some (Message ''Please enter a search query''),
                  page_search_performed = Some False\<rparr>, [])
            else
              (case fetch_articles env query of
                 (Inl e, msg, calls) \<Rightarrow>
                   (Render_index
                      \<lparr>page_articles = [], page_uploads = [],
                       page_error_message = Some (Str_of e), page_search_performed = None\<rparr>,
                    calls)
               | (Inr articles, msg, calls) \<Rightarrow>
                   (case annotate env (feedback_store st) 0 articles of
                      (Some e, articles') \<Rightarrow>
                        (Render_index
                           \<lparr>page_articles = articles', page_uploads = [],
                            page_error_message = Some (Str_of e), page_search_performed = None\<rparr>,
                         calls)
                    | (None, articles') \<Rightarrow>
                        (case related_uploads (uploads_store st) query of
                           Inl e \<Rightarrow>
                             (Render_index
                                \<lparr>page_articles = articles', page_uploads = [],
                                 page_error_message = Some (Str_of e),
                                 page_search_performed = None\<rparr>,
                              calls)
                         | Inr ups \<Rightarrow>
                             (Render_index
                                \<lparr>page_articles = articles', page_uploads = ups,
                                 page_error_message = msg, page_search_performed = None\<rparr>,
                              calls)))))
      else
        (Render_index
           \<lparr>page_articles = [], page_uploads = [], page_error_message = None,
            page_search_performed = None\<rparr>, []))"

section \<open>Notions used to state the properties\<close>

text \<open>The segment of a file name after its last dot.\<close>

definition after_last_dot :: "string \<Rightarrow> string" where
  "after_last_dot s = rev (takeWhile (\<lambda>c. c \<noteq> CHR ''.'') (rev s))"

text \<open>The state of a process that starts without the two files.\<close>

definition state0 :: app_state where
  "state0 = \<lparr>feedback_store = [], uploads_store = [], FEEDBACK_FILE = ''{}'',
             UPLOADS_FILE = ''[]'', saved_files = Map.empty\<rparr>"

text \<open>
  A run of votes for one identifier: the feedback handler once for each kind. The counters
  of an identifier are its record, or the zero record that the lookup takes when there is
  none.
\<close>


definition record_votes :: "app_state \<Rightarrow> string option \<Rightarrow> string option list \<Rightarrow> app_state" where
  "record_votes st nid kinds =
     foldl (\<lambda>s kind. snd (feedback s \<lparr>form_news_id = nid, form_is_real = kind\<rparr>)) st kinds"

definition counters :: "feedback_dict \<Rightarrow> string option \<Rightarrow> feedback_record" where
  "counters store nid =
     (case dict_get store nid of Some r \<Rightarrow> r | None \<Rightarrow> [(Some ''real'', 0), (Some ''fake'', 0)])"


text \<open>
  An article object as the news API delivers it: title, description and url are strings
  or null or missing, the source is an object or missing.
\<close>

definition api_field :: "(string \<times> pyval) list \<Rightarrow> string \<Rightarrow> bool" where
  "api_field d k =
     (case dict_get d k of None \<Rightarrow> True | Some PNone \<Rightarrow> True | Some (PStr s) \<Rightarrow> True | _ \<Rightarrow> False)"

definition api_article :: "pyval \<Rightarrow> bool" where
  "api_article a =
     (case a of
        PDict d \<Rightarrow>
          api_field d ''title'' \<and> api_field d ''description'' \<and> api_field d ''url''
          \<and> (case dict_get d ''source'' of None \<Rightarrow> True | Some (PDict sd) \<Rightarrow> True | _ \<Rightarrow> False)
      | _ \<Rightarrow> False)"

text \<open>A field that is present and not empty, and the string it holds.\<close>

definition field_str :: "pyval \<Rightarrow> string \<Rightarrow> string" where
  "field_str a k =
     (case a of PDict d \<Rightarrow> (case dict_get d k of Some (PStr s) \<Rightarrow> s | _ \<Rightarrow> []) | _ \<Rightarrow> [])"

definition kept :: "pyval \<Rightarrow> bool" where
  "kept a \<longleftrightarrow> field_str a ''title'' \<noteq> [] \<and> field_str a ''description'' \<noteq> [] \<and> field_str a ''url'' \<noteq> []"

text \<open>
  The article that the fetcher is to return for an upstream article: title and
  description trimmed, the url as it is, the image field or the empty string when it is
  missing, the name of the source or "Unknown Source" when the source or its name is
  missing.
\<close>

definition cleaned :: "pyval \<Rightarrow> article" where
  "cleaned a =
     \<lparr>title = Some (py_strip (field_str a ''title'')),
      description = py_strip (field_str a ''description''),
      url = PStr (field_str a ''url''),
      urlToImage =
        Some (case a of
                PDict d \<Rightarrow> (case dict_get d ''urlToImage'' of None \<Rightarrow> PStr [] | Some v \<Rightarrow> v)
              | _ \<Rightarrow> PStr []),
      source =
        Some (case a of
                PDict d \<Rightarrow>
                  (case dict_get d ''source'' of
                     Some (PDict sd) \<Rightarrow>
                       (case dict_get sd ''name'' of None \<Rightarrow> PStr ''Unknown Source'' | Some v \<Rightarrow> v)
                   | _ \<Rightarrow> PStr ''Unknown Source'')
              | _ \<Rightarrow> PStr ''Unknown Source''),
      prediction = None, confidence = None, article_id = None,
      real_percentage = None, fake_percentage = None\<rparr>"

text \<open>
  A feedback store in which every record holds the counters "real" and "fake", neither of
  them negative.
\<close>

definition counts_ok :: "feedback_dict \<Rightarrow> bool" where
  "counts_ok store =
     list_all (\<lambda>(k, r). case (dict_get r (Some ''real''), dict_get r (Some ''fake'')) of
                          (Some a, Some b) \<Rightarrow> 0 \<le> a \<and> 0 \<le> b
                        | _ \<Rightarrow> False) store"


text \<open>
  An outside world for the examples: one address parses as a URL, the news API answers
  with three articles, and the detector is the program's own but for texts with the word
  "crash", on which it raises.
\<close>

definition example_articles :: "pyval list" where
  "example_articles =
     [PDict [(''title'', PStr '' Flood warning ''), (''description'', PStr ''Rivers rise''),
             (''url'', PStr ''https://n.example/1''), (''urlToImage'', PNone),
             (''source'', PDict [(''id'', PNone), (''name'', PStr ''Wire'')])],
      PDict [(''title'', PStr ''Removed''), (''description'', PNone),
             (''url'', PStr ''https://n.example/2'')],
      PDict [(''title'', PStr ''Market crash''), (''description'', PStr ''Experts report''),
             (''url'', PStr ''https://n.example/3'')]]"

definition example_env :: env where
  "example_env =
     \<lparr>urlparse = (\<lambda>u. if u = ''https://example.com/a''
                        then Inr \<lparr>scheme = ''https'', netloc = ''example.com''\<rparr>
                        else Inr \<lparr>scheme = [], netloc = []\<rparr>),
      fetch_url_content = (\<lambda>u. None),
      requests_get = (\<lambda>u. Inr \<lparr>status_code = 200,
                                  json_body = Inr (PDict [(''status'', PStr ''ok''),
                                                          (''articles'', PList example_articles)])\<rparr>),
      detector = (\<lambda>t. if py_in_str ''crash'' (py_lower t) then Inl TypeError
                        else fake_news_detector t)\<rparr>"

section \<open>Properties of the analyzer\<close>

text \<open>
  C2. For every text whose count of suspicious terms (substring containment in the
  lower-cased text) is strictly greater than its count of credible terms plus 1, the
  analyzer returns the single label "potentially misleading" with the score 0.7.
\<close>

theorem C2_misleading:
  assumes "count_terms credible_words (py_lower t) + 1 < count_terms suspicious_words (py_lower t)"
  shows "analyze_text t = \<lparr>labels = [''potentially misleading''], scores = [double_of_rat (7 / 10)]\<rparr>"
  using assms by (simp add: analyze_text_def Let_def)

theorem C2_misleading_witness:
  "count_terms credible_words (py_lower ''SHOCKING secret hoax'') + 1
     < count_terms suspicious_words (py_lower ''SHOCKING secret hoax'')
   \<and> analyze_text ''SHOCKING secret hoax''
       = \<lparr>labels = [''potentially misleading''], scores = [double_of_rat (7 / 10)]\<rparr>"
proof -
  have a: "count_terms credible_words (py_lower ''SHOCKING secret hoax'') + 1
     < count_terms suspicious_words (py_lower ''SHOCKING secret hoax'')"
    by code_simp
  from a C2_misleading [OF a] show ?thesis by blast
qed

subsection \<open>Lower-casing keeps a URL match\<close>

text \<open>
  The analyzer searches the lower-cased text. Every character of the pattern's classes
  stays in them when lower-cased, so a text with a match still has one afterwards.
\<close>

lemma starts_with_map:
  "starts_with s p \<Longrightarrow> starts_with (map f s) (map f p)"
  by (induction s p rule: starts_with.induct) auto

lemma py_lower_http: "py_lower ''http'' = ''http''" "py_lower ''s://'' = ''s://''" "py_lower ''://'' = ''://''"
  by (simp_all add: py_lower_def py_lower_char_def)

lemma starts_with_lower_http:
  "starts_with s ''http'' \<Longrightarrow> starts_with (py_lower s) ''http''"
  using starts_with_map [of s "''http''" py_lower_char] py_lower_http by (simp add: py_lower_def)

lemma url_class_lower: "url_class c \<Longrightarrow> url_class (py_lower_char c)"
  by (auto simp: url_class_def py_lower_char_def Let_def of_char_of)

lemma url_class_percent: "url_class (CHR ''%'')"
  by (simp add: url_class_def)

lemma url_item_lower:
  "url_item s \<noteq> None \<Longrightarrow> url_item (py_lower s) \<noteq> None"
  by (cases s) (auto simp: py_lower_def url_class_lower url_class_percent split: if_splits list.splits)

lemma url_run_pos: "0 < url_run s \<longleftrightarrow> url_item s \<noteq> None"
proof (cases "url_item s")
  case None
  then show ?thesis by (simp add: url_run.simps [of s])
next
  case (Some k)
  then have "0 < k" by (cases s) (auto split: if_splits list.splits)
  with Some show ?thesis by (simp add: url_run.simps [of s])
qed

lemma drop_py_lower: "drop n (py_lower s) = py_lower (drop n s)"
  by (simp add: py_lower_def drop_map)

lemma starts_with_lower:
  "starts_with s p \<Longrightarrow> py_lower p = p \<Longrightarrow> starts_with (py_lower s) p"
  using starts_with_map [of s p py_lower_char] by (simp add: py_lower_def)

lemma match_url_lower:
  assumes "match_url s \<noteq> None"
  shows "match_url (py_lower s) \<noteq> None"
proof -
  from assms have h: "starts_with s ''http''"
    by (auto simp: match_url_def split: if_splits)
  then have h': "starts_with (py_lower s) ''http''"
    by (rule starts_with_lower_http)
  show ?thesis
  proof (cases "starts_with (drop 4 s) ''s://''")
    case True
    with assms h have "url_item (drop 8 s) \<noteq> None"
      by (auto simp: match_url_def Let_def url_run_pos split: if_splits)
    then have "url_item (py_lower (drop 8 s)) \<noteq> None"
      by (rule url_item_lower)
    moreover from True have "starts_with (drop 4 (py_lower s)) ''s://''"
      by (simp add: drop_py_lower starts_with_lower py_lower_http)
    ultimately show ?thesis using h'
      by (auto simp: match_url_def Let_def url_run_pos drop_py_lower)
  next
    case False
    with assms h have c: "starts_with (drop 4 s) ''://''" and "url_item (drop 7 s) \<noteq> None"
      by (auto simp: match_url_def Let_def url_run_pos split: if_splits)
    then have "url_item (py_lower (drop 7 s)) \<noteq> None"
      by (simp add: url_item_lower)
    moreover from c have c': "starts_with (drop 4 (py_lower s)) ''://''"
      by (simp add: drop_py_lower starts_with_lower py_lower_http)
    moreover have "\<not> starts_with (drop 4 (py_lower s)) ''s://''"
    proof
      assume "starts_with (drop 4 (py_lower s)) ''s://''"
      with c' show False by (cases "drop 4 (py_lower s)") auto
    qed
    ultimately show ?thesis using h'
      by (auto simp: match_url_def Let_def url_run_pos drop_py_lower)
  qed
qed

lemma findall_url_nonempty_iff:
  "findall_url s \<noteq> [] \<longleftrightarrow> (\<exists>k. match_url (drop k s) \<noteq> None)"
proof (induction s rule: findall_url.induct)
  case 1
  show ?case by (simp add: match_url_def)
next
  case (2 c cs)
  show ?case
  proof (cases "match_url (c # cs)")
    case (Some n)
    then have "match_url (drop 0 (c # cs)) \<noteq> None" by simp
    then have "\<exists>k. match_url (drop k (c # cs)) \<noteq> None" by blast
    with Some show ?thesis by simp
  next
    case None
    have "(\<exists>k. match_url (drop k (c # cs)) \<noteq> None) \<longleftrightarrow> (\<exists>k. match_url (drop k cs) \<noteq> None)"
    proof
      assume "\<exists>k. match_url (drop k (c # cs)) \<noteq> None"
      then obtain k where k: "match_url (drop k (c # cs)) \<noteq> None" ..
      with None have "k \<noteq> 0" by (cases k) auto
      then obtain j where "k = Suc j" by (cases k) auto
      with k show "\<exists>k. match_url (drop k cs) \<noteq> None" by auto
    next
      assume "\<exists>k. match_url (drop k cs) \<noteq> None"
      then obtain k where "match_url (drop (Suc k) (c # cs)) \<noteq> None" by auto
      then show "\<exists>k. match_url (drop k (c # cs)) \<noteq> None" by blast
    qed
    with None 2 show ?thesis by simp
  qed
qed

lemma findall_url_lower:
  assumes "findall_url s \<noteq> []"
  shows "findall_url (py_lower s) \<noteq> []"
proof -
  from assms obtain k where "match_url (drop k s) \<noteq> None"
    by (auto simp: findall_url_nonempty_iff)
  then have "match_url (drop k (py_lower s)) \<noteq> None"
    by (simp add: drop_py_lower match_url_lower)
  then show ?thesis
    unfolding findall_url_nonempty_iff by blast
qed

text \<open>
  C3. For every text that contains at least one match of the URL pattern and whose count
  of suspicious terms is not greater than its count of credible terms plus 1, the analyzer
  returns the label "likely reliable" with the score 0.7, whatever the two counts are
  otherwise.
\<close>

theorem C3_reliable:
  assumes "findall_url t \<noteq> []"
    and "\<not> count_terms credible_words (py_lower t) + 1 < count_terms suspicious_words (py_lower t)"
  shows "analyze_text t = \<lparr>labels = [''likely reliable''], scores = [double_of_rat (7 / 10)]\<rparr>"
  using assms(2) findall_url_lower [OF assms(1)] by (simp add: analyze_text_def Let_def)

theorem C3_reliable_witness:
  "findall_url ''Rumor has it: see http://example.com/a'' \<noteq> []
   \<and> \<not> count_terms credible_words (py_lower ''Rumor has it: see http://example.com/a'') + 1
        < count_terms suspicious_words (py_lower ''Rumor has it: see http://example.com/a'')
   \<and> analyze_text ''Rumor has it: see http://example.com/a''
       = \<lparr>labels = [''likely reliable''], scores = [double_of_rat (7 / 10)]\<rparr>"
proof -
  have a: "findall_url ''Rumor has it: see http://example.com/a'' \<noteq> []"
    by code_simp
  have b: "\<not> count_terms credible_words (py_lower ''Rumor has it: see http://example.com/a'') + 1
        < count_terms suspicious_words (py_lower ''Rumor has it: see http://example.com/a'')"
    by code_simp
  from a b C3_reliable [OF a b] show ?thesis by blast
qed

section \<open>The upload check and the upload handler\<close>

lemma starts_with_single: "starts_with s [c] \<longleftrightarrow> (\<exists>cs. s = c # cs)"
  by (cases s) auto

lemma py_in_str_single: "py_in_str [c] s \<longleftrightarrow> c \<in> set s"
  by (induction s) auto

lemma rfind_None: "rfind sep s = None \<longleftrightarrow> sep \<notin> set s"
  by (induction s) (auto split: option.splits)

lemma rfind_Some:
  "rfind sep s = Some i \<Longrightarrow> i < length s \<and> drop (Suc i) s = rev (takeWhile (\<lambda>c. c \<noteq> sep) (rev s))"
proof (induction s arbitrary: i)
  case Nil
  then show ?case by simp
next
  case (Cons c cs)
  show ?case
  proof (cases "rfind sep cs")
    case None
    with Cons.prems have "c = sep" "i = 0" by (auto split: if_splits)
    moreover from None have "sep \<notin> set cs" by (simp add: rfind_None)
    moreover from \<open>sep \<notin> set cs\<close>
    have "takeWhile (\<lambda>c. c \<noteq> sep) (rev cs @ [sep]) = rev cs @ takeWhile (\<lambda>c. c \<noteq> sep) [sep]"
      by (intro takeWhile_append2) auto
    ultimately show ?thesis by simp
  next
    case (Some j)
    with Cons.prems have i: "i = Suc j" by simp
    from Cons.IH [OF Some] have j: "j < length cs"
      and d: "drop (Suc j) cs = rev (takeWhile (\<lambda>c. c \<noteq> sep) (rev cs))" by simp_all
    from Some have "sep \<in> set cs" using rfind_None [of sep cs] by auto
    then have "takeWhile (\<lambda>c. c \<noteq> sep) (rev cs @ [c]) = takeWhile (\<lambda>c. c \<noteq> sep) (rev cs)"
      by (intro takeWhile_append1 [where x = sep]) auto
    with i j d show ?thesis by simp
  qed
qed

lemma allowed_file_eq:
  "allowed_file f = Inr (CHR ''.'' \<in> set f \<and> py_lower (after_last_dot f) \<in> set ALLOWED_EXTENSIONS)"
proof (cases "rfind (CHR ''.'') f")
  case None
  then show ?thesis
    by (simp add: allowed_file_def py_in_str_single rfind_None)
next
  case (Some i)
  then have "CHR ''.'' \<in> set f" using rfind_None [of "CHR ''.''" f] by auto
  with Some rfind_Some [OF Some] show ?thesis
    by (simp add: allowed_file_def py_in_str_single py_rsplit1_def py_index_def after_last_dot_def)
qed

text \<open>
  C10. For every file name, allowed_file accepts it if and only if it contains a dot and
  the segment after the last dot is, lower-cased, one of txt, pdf, png, jpg, jpeg, mp4.
  So a name with no dot is rejected, "a.PDF" is accepted, and "a.tar.gz" is judged by
  "gz" and rejected. The check never raises.
\<close>

theorem C10_allowed_file:
  "allowed_file f =
     Inr (CHR ''.'' \<in> set f
          \<and> py_lower (after_last_dot f) \<in> {''txt'', ''pdf'', ''png'', ''jpg'', ''jpeg'', ''mp4''})
   \<and> (CHR ''.'' \<notin> set f \<longrightarrow> allowed_file f = Inr False)
   \<and> allowed_file ''a.PDF'' = Inr True
   \<and> after_last_dot ''a.tar.gz'' = ''gz'' \<and> allowed_file ''a.tar.gz'' = Inr False"
proof -
  have "allowed_file ''a.PDF'' = Inr True"
    by code_simp
  moreover have "after_last_dot ''a.tar.gz'' = ''gz''"
    by (simp add: after_last_dot_def)
  moreover have "allowed_file ''a.tar.gz'' = Inr False"
    by code_simp
  ultimately show ?thesis
    by (simp add: allowed_file_eq ALLOWED_EXTENSIONS_def)
qed

theorem C10_allowed_file_witness:
  "CHR ''.'' \<notin> set ''README'' \<and> allowed_file ''README'' = Inr False"
  using C10_allowed_file [of "''README''"] by simp

lemma after_last_dot_append:
  assumes "CHR ''.'' \<notin> set ext"
  shows "after_last_dot (base @ CHR ''.'' # ext) = ext"
proof -
  from assms
  have "takeWhile (\<lambda>c. c \<noteq> CHR ''.'') (rev ext @ CHR ''.'' # rev base)
          = rev ext @ takeWhile (\<lambda>c. c \<noteq> CHR ''.'') (CHR ''.'' # rev base)"
    by (intro takeWhile_append2) auto
  then show ?thesis by (simp add: after_last_dot_def)
qed

lemma allowed_file_ext:
  assumes "CHR ''.'' \<notin> set ext"
  shows "allowed_file (base @ CHR ''.'' # ext) = Inr (py_lower ext \<in> set ALLOWED_EXTENSIONS)"
  using assms by (simp add: allowed_file_eq after_last_dot_append)

lemma exe_not_allowed: "py_lower ''exe'' \<notin> set ALLOWED_EXTENSIONS"
  by code_simp

lemma pdf_allowed: "py_lower ''pdf'' \<in> set ALLOWED_EXTENSIONS"
  by code_simp

text \<open>
  C7. For every upload request (any topic, any base name, any content), the file with the
  extension "exe" is rejected and the state, with the upload store, is unchanged; the
  same request with the extension "pdf", when the file system lets the file be saved, is
  redirected and the record of its file name and topic is appended to the upload store.
\<close>

theorem C7_upload:
  "upload save_file st
      \<lparr>upload_method = ''POST'', form_topic = tp,
       files_file = Some \<lparr>fs_filename = base @ ''.exe'', fs_content = data\<rparr>\<rparr>
     = (Inr Render_upload, st)
   \<and> (save_file (os_path_join UPLOAD_FOLDER (base @ ''.pdf'')) = None \<longrightarrow>
        fst (upload save_file st
               \<lparr>upload_method = ''POST'', form_topic = tp,
                files_file = Some \<lparr>fs_filename = base @ ''.pdf'', fs_content = data\<rparr>\<rparr>)
          = Inr (Redirect ''upload'')
        \<and> uploads_store (snd (upload save_file st
               \<lparr>upload_method = ''POST'', form_topic = tp,
                files_file = Some \<lparr>fs_filename = base @ ''.pdf'', fs_content = data\<rparr>\<rparr>))
          = uploads_store st @ [\<lparr>filename = base @ ''.pdf'', topic = tp\<rparr>])"
proof -
  have exe: "allowed_file (base @ ''.exe'') = Inr False"
    using allowed_file_ext [of "''exe''" base] exe_not_allowed by simp
  have pdf: "allowed_file (base @ ''.pdf'') = Inr True"
    using allowed_file_ext [of "''pdf''" base] pdf_allowed by simp
  show ?thesis
    by (simp add: upload_def exe pdf Let_def save_uploads_def)
qed

theorem C7_upload_witness:
  "(\<lambda>p. None :: error option) (os_path_join UPLOAD_FOLDER (''report'' @ ''.pdf'')) = None
   \<and> upload (\<lambda>p. None) state0
        \<lparr>upload_method = ''POST'', form_topic = Some ''climate'',
         files_file = Some \<lparr>fs_filename = ''report.exe'', fs_content = ''MZ''\<rparr>\<rparr>
       = (Inr Render_upload, state0)
   \<and> uploads_store (snd (upload (\<lambda>p. None) state0
        \<lparr>upload_method = ''POST'', form_topic = Some ''climate'',
         files_file = Some \<lparr>fs_filename = ''report.pdf'', fs_content = ''MZ''\<rparr>\<rparr>))
       = [\<lparr>filename = ''report.pdf'', topic = Some ''climate''\<rparr>]"
  using C7_upload [of "\<lambda>p. None" state0 "Some ''climate''" "''report''" "''MZ''"]
  by (simp add: state0_def)

section \<open>The feedback store\<close>

lemma and_then_Inl [simp]: "and_then (Inl e) f = Inl e"
  by (simp add: and_then_def)

lemma and_then_Inr [simp]: "and_then (Inr x) f = f x"
  by (simp add: and_then_def)

subsection \<open>dict lemmas\<close>

lemma dict_get_set: "dict_get (dict_set k v d) k' = (if k' = k then Some v else dict_get d k')"
  by (induction d) auto

lemma dict_set_absent: "dict_get d k = None \<Longrightarrow> dict_set k v d = d @ [(k, v)]"
  by (induction d) (auto split: if_splits)

text \<open>
  C1 does not hold as stated: a vote kind that is no key of the record is not added, the
  handler raises \<open>KeyError\<close>. After \<open>feedback\<close> on the empty store with the
  identifier "0" and the kind "maybe", the record of "0" holds the two zero counters and
  no third one, and the file is as before.
\<close>

theorem C1_counterexample:
  "feedback state0 \<lparr>form_news_id = Some ''0'', form_is_real = Some ''maybe''\<rparr>
     = (Inl (KeyError (Some ''maybe'')),
        state0\<lparr>feedback_store := [(Some ''0'', [(Some ''real'', 0), (Some ''fake'', 0)])]\<rparr>)"
  by (simp add: feedback_def state0_def dict_getitem_def Let_def)

text \<open>
  C1, amended. For every identifier and every vote kind (a missing one too) that is no key
  of the identifier's record, where an identifier without a record counts with the record
  of the two zero counters "real" and "fake", the feedback handler raises \<open>KeyError\<close>
  for the kind. No counter is added and no file is written; the only change is that an
  identifier without a record has the zero record afterwards.
\<close>

theorem C1_unknown_kind_raises:
  assumes "dict_get (case dict_get (feedback_store st) nid of
                       None \<Rightarrow> [(Some ''real'', 0), (Some ''fake'', 0)]
                     | Some r \<Rightarrow> r) kind = None"
  shows "feedback st \<lparr>form_news_id = nid, form_is_real = kind\<rparr>
           = (Inl (KeyError kind),
              (case dict_get (feedback_store st) nid of
                 None \<Rightarrow> st\<lparr>feedback_store :=
                              feedback_store st @ [(nid, [(Some ''real'', 0), (Some ''fake'', 0)])]\<rparr>
               | Some r \<Rightarrow> st))"
proof (cases "dict_get (feedback_store st) nid")
  case None
  let ?store = "dict_set nid [(Some ''real'', 0), (Some ''fake'', 0)] (feedback_store st)"
  have g: "dict_get ?store nid = Some [(Some ''real'', 0), (Some ''fake'', 0)]"
    by (simp add: dict_get_set)
  from None have a: "?store = feedback_store st @ [(nid, [(Some ''real'', 0), (Some ''fake'', 0)])]"
    by (rule dict_set_absent)
  from None assms have k: "dict_get [(Some ''real'', 0), (Some ''fake'', 0 :: int)] kind = None"
    by simp
  have "feedback st \<lparr>form_news_id = nid, form_is_real = kind\<rparr>
          = (Inl (KeyError kind), st\<lparr>feedback_store := ?store\<rparr>)"
    using None g k by (simp add: feedback_def dict_getitem_def Let_def del: dict_get.simps)
  with None a show ?thesis by simp
next
  case (Some r)
  with assms show ?thesis
    by (simp add: feedback_def dict_getitem_def Let_def)
qed

theorem C1_unknown_kind_raises_witness:
  "dict_get (case dict_get (feedback_store state0) (Some ''0'') of
                       None \<Rightarrow> [(Some ''real'', 0), (Some ''fake'', 0)]
                     | Some r \<Rightarrow> r) (Some ''maybe'') = None
   \<and> feedback state0 \<lparr>form_news_id = Some ''0'', form_is_real = Some ''maybe''\<rparr>
       = (Inl (KeyError (Some ''maybe'')),
          state0\<lparr>feedback_store := [(Some ''0'', [(Some ''real'', 0), (Some ''fake'', 0)])]\<rparr>)"
  using C1_unknown_kind_raises [of state0 "Some ''0''" "Some ''maybe''"]
  by (simp add: state0_def)

subsection \<open>No overflow between 0 and 1\<close>

lemma round_half_even_le:
  assumes "x \<le> of_int n"
  shows "round_half_even x \<le> n"
proof -
  have f: "\<lfloor>x\<rfloor> \<le> n" using assms by (simp add: floor_le_iff) 
  show ?thesis
  proof (cases "x - of_int \<lfloor>x\<rfloor> < 1 / 2")
    case True
    with f show ?thesis by (simp add: round_half_even_def Let_def)
  next
    case False
    then have "of_int \<lfloor>x\<rfloor> < x" by simp
    with assms have "(of_int \<lfloor>x\<rfloor> :: rat) < of_int n" by simp
    then have "\<lfloor>x\<rfloor> < n" by simp
    then show ?thesis by (simp add: round_half_even_def Let_def)
  qed
qed

lemma ilog2_le_0:
  assumes "0 < q" "q \<le> 1"
  shows "ilog2 q \<le> 0"
proof (cases "1 \<le> q")
  case True
  with assms have "q = 1" by simp
  have "bitlen 1 = 1" by code_simp
  with \<open>q = 1\<close> show ?thesis by (simp add: ilog2_def)
next
  case False
  then show ?thesis using bitlen_nonneg [of "\<lceil>1 / q\<rceil> - 1"] by (simp add: ilog2_def)
qed

lemma double_of_rat_unit:
  assumes "0 \<le> q" "q \<le> 1"
  shows "\<exists>x. double_of_rat q = Finite x"
proof (cases "q = 0")
  case True
  then show ?thesis by (simp add: double_of_rat_def)
next
  case False
  with assms have pos: "0 < q" by simp
  define e where "e = max (ilog2 q) (- 1022)"
  define ulp :: rat where "ulp = 2 powi (e - 52)"
  define v where "v = of_int (round_half_even (q / ulp)) * ulp"
  have e: "e \<le> 0" using ilog2_le_0 [OF pos assms(2)] by (simp add: e_def)
  have ulp: "0 < ulp" by (simp add: ulp_def)
  have inv: "1 / ulp = of_int (2 ^ nat (52 - e))"
    using e by (simp add: ulp_def power_int_def field_simps)
  have "q / ulp \<le> 1 / ulp" using assms(2) ulp by (simp add: divide_right_mono)
  then have "round_half_even (q / ulp) \<le> 2 ^ nat (52 - e)"
    unfolding inv by (rule round_half_even_le)
  then have "(of_int (round_half_even (q / ulp)) :: rat) \<le> of_int (2 ^ nat (52 - e))"
    using of_int_le_iff by blast
  then have "v \<le> (1 / ulp) * ulp"
    unfolding v_def inv using ulp by (intro mult_right_mono) simp_all
  with ulp have "v \<le> 1" by simp
  moreover have "(1 :: rat) < 2 powi 1024" by (simp add: power_int_def)
  ultimately have "\<not> 2 powi 1024 \<le> v" by simp
  with pos show ?thesis
    by (simp add: double_of_rat_def Let_def e_def [symmetric] ulp_def [symmetric] v_def [symmetric])
qed

lemma py_truediv_part:
  assumes "0 \<le> a" "a \<le> t" "0 < t"
  shows "py_truediv a t = Inr (double_of_rat (of_int a / of_int t))"
proof -
  from assms have "0 \<le> (of_int a / of_int t :: rat)" "(of_int a / of_int t :: rat) \<le> 1"
    by simp_all
  from double_of_rat_unit [OF this] obtain x where "double_of_rat (of_int a / of_int t) = Finite x" ..
  with assms show ?thesis by (simp add: py_truediv_def)
qed

lemma pow2_le_of_int: "(2 :: int) ^ k \<le> n \<Longrightarrow> (2 :: rat) ^ k \<le> of_int n"
  by simp

lemma of_int_less_pow2: "n < (2 :: int) ^ k \<Longrightarrow> (of_int n :: rat) < 2 ^ k"
  by simp

lemma of_int_Suc_le_pow2: "n < (2 :: int) ^ k \<Longrightarrow> (of_int (n + 1) :: rat) \<le> 2 ^ k"
proof -
  assume "n < 2 ^ k"
  then have "n + 1 \<le> 2 ^ k" by simp
  then have "(of_int (n + 1) :: rat) \<le> of_int (2 ^ k)" by (simp only: of_int_le_iff)
  then show ?thesis by simp
qed

lemma powi2_minus: "0 \<le> j \<Longrightarrow> (2 :: rat) powi (- j) = 1 / 2 ^ nat j"
  by (simp add: power_int_minus power_int_def field_simps)

lemma ilog2_bounds:
  assumes "0 < q"
  shows "2 powi (ilog2 q) \<le> q" and "q < 2 powi (ilog2 q + 1)"
proof -
  have "2 powi (ilog2 q) \<le> q \<and> q < 2 powi (ilog2 q + 1)"
  proof (cases "1 \<le> q")
    case True
    define n where "n = \<lfloor>q\<rfloor>"
    from True have n: "0 < n" by (simp add: n_def)
    from bitlen_bounds [OF n] have lo: "2 ^ nat (bitlen n - 1) \<le> n" and hi: "n < 2 ^ nat (bitlen n)"
      by simp_all
    from n have b: "1 \<le> bitlen n" by (simp add: bitlen_alt_def)
    have "(2 :: rat) ^ nat (bitlen n - 1) \<le> of_int n"
      using lo by (rule pow2_le_of_int)
    also have "of_int n \<le> q" by (simp add: n_def)
    finally have 1: "2 powi (bitlen n - 1) \<le> q"
      using b by (simp add: power_int_def)
    have "q < of_int (n + 1)" using floor_correct [of q] by (simp add: n_def)
    also have "(of_int (n + 1) :: rat) \<le> 2 ^ nat (bitlen n)"
      using hi by (rule of_int_Suc_le_pow2)
    finally have 2: "q < 2 powi (bitlen n - 1 + 1)"
      using b by (simp add: power_int_def)
    from True 1 2 show ?thesis by (simp add: ilog2_def n_def)
  next
    case False
    define x where "x = 1 / q"
    define c where "c = \<lceil>x\<rceil> - 1"
    from False assms have x: "1 < x" by (simp add: x_def)
    then have "1 < \<lceil>x\<rceil>" by (simp add: less_ceiling_iff)
    then have c: "0 < c" by (simp add: c_def)
    have cx: "of_int c < x" by (simp add: c_def) linarith
    have xc: "x \<le> of_int (c + 1)" by (simp add: c_def)
    from bitlen_bounds [OF c] have lo: "2 ^ nat (bitlen c - 1) \<le> c" and hi: "c < 2 ^ nat (bitlen c)"
      by simp_all
    from c have b: "1 \<le> bitlen c" by (simp add: bitlen_alt_def)
    note xc
    also have "(of_int (c + 1) :: rat) \<le> 2 ^ nat (bitlen c)"
      using hi by (rule of_int_Suc_le_pow2)
    finally have "x \<le> 2 ^ nat (bitlen c)" .
    then have "1 / 2 ^ nat (bitlen c) \<le> q"
      using assms by (simp add: x_def field_simps)
    then have 1: "2 powi (- bitlen c) \<le> q"
      using b by (simp add: powi2_minus)
    have "(2 :: rat) ^ nat (bitlen c - 1) \<le> of_int c"
      using lo by (rule pow2_le_of_int)
    also note cx
    finally have "2 ^ nat (bitlen c - 1) < x" .
    then have "q < 1 / 2 ^ nat (bitlen c - 1)"
      using assms by (simp add: x_def field_simps)
    also have "\<dots> = 2 powi (- (bitlen c - 1))"
      using b by (intro powi2_minus [symmetric]) simp
    finally have 2: "q < 2 powi (- bitlen c + 1)"
      by simp
    from False 1 2 show ?thesis by (simp add: ilog2_def x_def c_def)
  qed
  then show "2 powi (ilog2 q) \<le> q" and "q < 2 powi (ilog2 q + 1)" by simp_all
qed

lemma ilog2_unique:
  assumes "2 powi e \<le> q" "q < 2 powi (e + 1)"
  shows "ilog2 q = e"
proof -
  have "(0 :: rat) < 2 powi e" by simp
  also note assms(1)
  finally have pos: "0 < q" .
  note b = ilog2_bounds [OF pos]
  have "\<not> ilog2 q < e"
  proof
    assume "ilog2 q < e"
    then have "(2 :: rat) powi (ilog2 q + 1) \<le> 2 powi e"
      by (intro power_int_increasing) simp_all
    with b(2) assms(1) show False by simp
  qed
  moreover have "\<not> e < ilog2 q"
  proof
    assume "e < ilog2 q"
    then have "(2 :: rat) powi (e + 1) \<le> 2 powi (ilog2 q)"
      by (intro power_int_increasing) simp_all
    with b(1) assms(2) show False by simp
  qed
  ultimately show ?thesis by simp
qed

lemma round_half_even_of_int: "round_half_even (of_int n) = n"
  by (simp add: round_half_even_def)

lemma double_of_rat_dyadic:
  assumes "0 < m" "m < 2 ^ 53" "- 1074 \<le> k" "k \<le> 971"
  shows "double_of_rat (of_int m * 2 powi k) = Finite (of_int m * 2 powi k)"
proof -
  define q :: rat where "q = of_int m * 2 powi k"
  define b where "b = bitlen m"
  have q: "0 < q" using assms(1) by (simp add: q_def)
  from bitlen_bounds [OF assms(1)] have lo: "2 ^ nat (b - 1) \<le> m" and hi: "m < 2 ^ nat b"
    by (simp_all add: b_def)
  from assms(1) have b1: "1 \<le> b" by (simp add: b_def bitlen_alt_def)
  have b53: "b \<le> 53"
  proof (rule ccontr)
    assume "\<not> b \<le> 53"
    then have "(2 :: int) ^ 53 \<le> 2 ^ nat (b - 1)"
      by (intro power_increasing) simp_all
    with lo assms(2) show False by simp
  qed
  have "(2 :: rat) ^ nat (b - 1) \<le> of_int m"
    using lo by (rule pow2_le_of_int)
  then have "2 powi (b - 1) \<le> (of_int m :: rat)"
    using b1 by (simp add: power_int_def)
  then have "2 powi (b - 1) * 2 powi k \<le> q"
    unfolding q_def by (intro mult_right_mono) simp_all
  then have 1: "2 powi (b - 1 + k) \<le> q"
    by (simp add: power_int_add)
  have "(of_int m :: rat) < 2 ^ nat b"
    using hi by (rule of_int_less_pow2)
  then have "(of_int m :: rat) < 2 powi b"
    using b1 by (simp add: power_int_def)
  then have "q < 2 powi b * 2 powi k"
    unfolding q_def by (intro mult_strict_right_mono) simp_all
  then have 2: "q < 2 powi (b - 1 + k + 1)"
    by (simp add: power_int_add)
  from 1 2 have il: "ilog2 q = b - 1 + k" by (rule ilog2_unique)
  define e where "e = max (b - 1 + k) (- 1022)"
  define d where "d = k - (e - 52)"
  have d: "0 \<le> d" using b53 assms(3) by (auto simp: d_def e_def max_def)
  have qd: "q / 2 powi (e - 52) = of_int m * 2 powi d"
    by (simp add: q_def d_def power_int_diff)
  have md: "of_int m * 2 powi d = (of_int (m * 2 ^ nat d) :: rat)"
    using d by (simp add: power_int_def)
  have r: "round_half_even (q / 2 powi (e - 52)) = m * 2 ^ nat d"
    unfolding qd md by (rule round_half_even_of_int)
  have "of_int (round_half_even (q / 2 powi (e - 52))) * 2 powi (e - 52)
          = (of_int m * 2 powi d) * (2 :: rat) powi (e - 52)"
    by (simp only: r md)
  also have "\<dots> = of_int m * (2 powi d * 2 powi (e - 52))"
    by (simp only: mult.assoc)
  also have "2 powi d * 2 powi (e - 52) = (2 :: rat) powi k"
    by (simp add: d_def power_int_add [symmetric])
  finally have v: "of_int (round_half_even (q / 2 powi (e - 52))) * 2 powi (e - 52) = q"
    by (simp add: q_def)
  have "(of_int m :: rat) < 2 ^ 53"
    using assms(2) by (rule of_int_less_pow2)
  then have "q < 2 ^ 53 * 2 powi k"
    unfolding q_def by (intro mult_strict_right_mono) simp_all
  also have "\<dots> \<le> 2 ^ 53 * 2 powi 971"
    using assms(4) by (intro mult_left_mono power_int_increasing) simp_all
  also have "\<dots> = 2 powi 1024"
    by (simp add: power_int_def)
  finally have lt: "\<not> 2 powi 1024 \<le> q" by simp
  from q have "\<bar>q\<bar> = q" "sgn q = 1" "q \<noteq> 0" by simp_all
  then have "double_of_rat q = Finite q"
    using lt v by (simp add: double_of_rat_def il e_def [symmetric] Let_def)
  then show ?thesis by (simp add: q_def)
qed

lemma double_of_rat_three_quarters: "double_of_rat (3 / 4) = Finite (3 / 4)"
proof -
  have e: "of_int 3 * 2 powi (- 2) = (3 / 4 :: rat)"
    by (simp add: power_int_def power_divide)
  from double_of_rat_dyadic [of 3 "- 2"] show ?thesis
    unfolding e by simp
qed

lemma double_of_rat_quarter: "double_of_rat (1 / 4) = Finite (1 / 4)"
proof -
  have e: "of_int 1 * 2 powi (- 2) = (1 / 4 :: rat)"
    by (simp add: power_int_def power_divide)
  from double_of_rat_dyadic [of 1 "- 2"] show ?thesis
    unfolding e by simp
qed

lemma double_of_rat_int:
  assumes "0 < m" "m < 2 ^ 53"
  shows "double_of_rat (of_int m) = Finite (of_int m)"
  using double_of_rat_dyadic [of m 0] assms by simp

lemma round_75: "py_round2_float (py_float_mul (Finite (3 / 4)) (Finite 100)) = Finite 75"
proof -
  have "py_float_mul (Finite (3 / 4)) (Finite 100) = Finite 75"
    using double_of_rat_int [of 75] by simp
  moreover have "round_half_even 7500 = 7500"
    using round_half_even_of_int [of 7500] by simp
  ultimately show ?thesis
    using double_of_rat_int [of 75] by simp
qed

lemma round_25: "py_round2_float (py_float_mul (Finite (1 / 4)) (Finite 100)) = Finite 25"
proof -
  have "py_float_mul (Finite (1 / 4)) (Finite 100) = Finite 25"
    using double_of_rat_int [of 25] by simp
  moreover have "round_half_even 2500 = 2500"
    using round_half_even_of_int [of 2500] by simp
  ultimately show ?thesis
    using double_of_rat_int [of 25] by simp
qed

lemma percentages_counters:
  "get_feedback_percentages store nid =
     and_then (dict_getitem (counters store nid) (Some ''real'')) (\<lambda>r.
     and_then (dict_getitem (counters store nid) (Some ''fake'')) (\<lambda>f.
       if 0 < r + f then
         and_then (py_truediv r (r + f)) (\<lambda>q1.
         and_then (py_truediv f (r + f)) (\<lambda>q2.
           Inr (PyFloat (py_round2_float (py_float_mul q1 (Finite 100))),
                PyFloat (py_round2_float (py_float_mul q2 (Finite 100))))))
       else Inr (PyInt 0, PyInt 0)))"
  by (simp add: get_feedback_percentages_def counters_def Let_def)

lemma percentages_zero:
  assumes "dict_get (counters store nid) (Some ''real'') = Some 0"
    and "dict_get (counters store nid) (Some ''fake'') = Some 0"
  shows "get_feedback_percentages store nid = Inr (PyInt 0, PyInt 0)"
  using assms by (simp add: percentages_counters dict_getitem_def)

lemma percentages_formula:
  assumes "dict_get (counters store nid) (Some ''real'') = Some r"
    and "dict_get (counters store nid) (Some ''fake'') = Some f"
    and "0 \<le> r" "0 \<le> f" "0 < r + f"
  shows "get_feedback_percentages store nid =
           Inr (PyFloat (py_round2_float
                  (py_float_mul (double_of_rat (of_int r / of_int (r + f))) (Finite 100))),
                PyFloat (py_round2_float
                  (py_float_mul (double_of_rat (of_int f / of_int (r + f))) (Finite 100))))"
proof -
  have "py_truediv r (r + f) = Inr (double_of_rat (of_int r / of_int (r + f)))"
    using assms by (intro py_truediv_part) simp_all
  moreover have "py_truediv f (r + f) = Inr (double_of_rat (of_int f / of_int (r + f)))"
    using assms by (intro py_truediv_part) simp_all
  ultimately show ?thesis
    using assms by (simp add: percentages_counters dict_getitem_def)
qed

lemma feedback_vote:
  assumes "counters (feedback_store st) nid = [(Some ''real'', a), (Some ''fake'', b)]"
    and "kind = Some ''real'' \<or> kind = Some ''fake''"
  shows "counters (feedback_store (snd (feedback st \<lparr>form_news_id = nid, form_is_real = kind\<rparr>))) nid
           = [(Some ''real'', if kind = Some ''real'' then a + 1 else a),
              (Some ''fake'', if kind = Some ''fake'' then b + 1 else b)]"
proof (cases "dict_get (feedback_store st) nid")
  case None
  with assms(1) have ab: "a = 0" "b = 0" by (simp_all add: counters_def)
  let ?store = "dict_set nid [(Some ''real'', 0), (Some ''fake'', 0)] (feedback_store st)"
  have g: "dict_get ?store nid = Some [(Some ''real'', 0), (Some ''fake'', 0)]"
    by (simp add: dict_get_set)
  show ?thesis
    using None g assms(2) ab
    by (auto simp: feedback_def dict_getitem_def Let_def save_feedback_def counters_def dict_get_set)
next
  case (Some r)
  with assms(1) have r: "r = [(Some ''real'', a), (Some ''fake'', b)]" by (simp add: counters_def)
  show ?thesis
    using Some r assms(2)
    by (auto simp: feedback_def dict_getitem_def Let_def save_feedback_def counters_def dict_get_set)
qed

lemma record_votes_counters:
  assumes "set kinds \<subseteq> {Some ''real'', Some ''fake''}"
    and "counters (feedback_store st) nid = [(Some ''real'', a), (Some ''fake'', b)]"
  shows "counters (feedback_store (record_votes st nid kinds)) nid
           = [(Some ''real'', a + int (count_list kinds (Some ''real''))),
              (Some ''fake'', b + int (count_list kinds (Some ''fake'')))]"
  using assms
proof (induction kinds arbitrary: st a b)
  case Nil
  then show ?case by (simp add: record_votes_def)
next
  case (Cons kind kinds)
  let ?st = "snd (feedback st \<lparr>form_news_id = nid, form_is_real = kind\<rparr>)"
  from Cons.prems(1) have k: "kind = Some ''real'' \<or> kind = Some ''fake''"
    and ks: "set kinds \<subseteq> {Some ''real'', Some ''fake''}" by auto
  have r: "record_votes st nid (kind # kinds) = record_votes ?st nid kinds"
    by (simp add: record_votes_def)
  from Cons.IH [OF ks feedback_vote [OF Cons.prems(2) k]] k show ?case
    unfolding r by auto
qed

lemma count_list_two:
  assumes "a \<noteq> b" "count_list xs a + count_list xs b = length xs"
  shows "set xs \<subseteq> {a, b}"
  using assms(2)
proof (induction xs)
  case Nil
  then show ?case by simp
next
  case (Cons x xs)
  have le: "count_list xs a + count_list xs b \<le> length xs"
    using assms(1) by (induction xs) auto
  from Cons.prems assms(1) le have "x = a \<or> x = b"
    by (auto split: if_splits)
  moreover from Cons.prems assms(1) le have "count_list xs a + count_list xs b = length xs"
    by (auto split: if_splits)
  ultimately show ?case using Cons.IH by simp
qed

lemma percentages_three_to_one:
  assumes "counters store nid = [(Some ''real'', 3), (Some ''fake'', 1)]"
  shows "get_feedback_percentages store nid = Inr (PyFloat (Finite 75), PyFloat (Finite 25))"
proof -
  have t1: "py_truediv 3 4 = Inr (Finite (3 / 4))"
    using py_truediv_part [of 3 4] double_of_rat_three_quarters by simp
  have t2: "py_truediv 1 4 = Inr (Finite (1 / 4))"
    using py_truediv_part [of 1 4] double_of_rat_quarter by simp
  show ?thesis
    using assms
    by (simp add: percentages_counters dict_getitem_def t1 t2 round_75 round_25
             del: py_float_mul.simps py_round2_float.simps)
qed

text \<open>
  C4. An identifier with no recorded votes (no record, or the counters 0 and 0) has the
  percentages (0, 0), the int 0 twice. With the counters \<open>r\<close> and \<open>f\<close>, not negative and
  not both 0, the percentages are \<open>r / (r + f) * 100\<close> and \<open>f / (r + f) * 100\<close>, each
  computed in double precision (the quotient rounded to a double, the product rounded to a
  double) and then rounded to two decimal places by \<open>round\<close>. After four votes for an
  identifier without a record, three of them "real" and one "fake" in any order, the
  percentages are (75.0, 25.0).
\<close>

theorem C4_percentages:
  "(dict_get (counters store1 nid1) (Some ''real'') = Some 0
      \<and> dict_get (counters store1 nid1) (Some ''fake'') = Some 0
     \<longrightarrow> get_feedback_percentages store1 nid1 = Inr (PyInt 0, PyInt 0))
   \<and> (dict_get (counters store2 nid2) (Some ''real'') = Some r
      \<and> dict_get (counters store2 nid2) (Some ''fake'') = Some f
      \<and> 0 \<le> r \<and> 0 \<le> f \<and> 0 < r + f
     \<longrightarrow> get_feedback_percentages store2 nid2 =
           Inr (PyFloat (py_round2_float
                  (py_float_mul (double_of_rat (of_int r / of_int (r + f))) (Finite 100))),
                PyFloat (py_round2_float
                  (py_float_mul (double_of_rat (of_int f / of_int (r + f))) (Finite 100)))))
   \<and> (dict_get (feedback_store st) nid3 = None
      \<and> length kinds = 4
      \<and> count_list kinds (Some ''real'') = 3 \<and> count_list kinds (Some ''fake'') = 1
     \<longrightarrow> get_feedback_percentages (feedback_store (record_votes st nid3 kinds)) nid3
           = Inr (PyFloat (Finite 75), PyFloat (Finite 25)))"
proof (intro conjI impI)
  assume "dict_get (counters store1 nid1) (Some ''real'') = Some 0
      \<and> dict_get (counters store1 nid1) (Some ''fake'') = Some 0"
  then show "get_feedback_percentages store1 nid1 = Inr (PyInt 0, PyInt 0)"
    by (simp add: percentages_zero)
next
  assume "dict_get (counters store2 nid2) (Some ''real'') = Some r
      \<and> dict_get (counters store2 nid2) (Some ''fake'') = Some f
      \<and> 0 \<le> r \<and> 0 \<le> f \<and> 0 < r + f"
  then show "get_feedback_percentages store2 nid2 =
           Inr (PyFloat (py_round2_float
                  (py_float_mul (double_of_rat (of_int r / of_int (r + f))) (Finite 100))),
                PyFloat (py_round2_float
                  (py_float_mul (double_of_rat (of_int f / of_int (r + f))) (Finite 100))))"
    by (intro percentages_formula) simp_all
next
  assume a: "dict_get (feedback_store st) nid3 = None
      \<and> length kinds = 4
      \<and> count_list kinds (Some ''real'') = 3 \<and> count_list kinds (Some ''fake'') = 1"
  then have "set kinds \<subseteq> {Some ''real'', Some ''fake''}"
    by (intro count_list_two) simp_all
  moreover from a have "counters (feedback_store st) nid3 = [(Some ''real'', 0), (Some ''fake'', 0)]"
    by (simp add: counters_def)
  ultimately have "counters (feedback_store (record_votes st nid3 kinds)) nid3
           = [(Some ''real'', 3), (Some ''fake'', 1)]"
    using a record_votes_counters [of kinds st nid3 0 0] by simp
  then show "get_feedback_percentages (feedback_store (record_votes st nid3 kinds)) nid3
           = Inr (PyFloat (Finite 75), PyFloat (Finite 25))"
    by (rule percentages_three_to_one)
qed

theorem C4_percentages_witness:
  "dict_get (counters [] (Some ''0'')) (Some ''real'') = Some 0
   \<and> dict_get (counters [] (Some ''0'')) (Some ''fake'') = Some 0
   \<and> get_feedback_percentages [] (Some ''0'') = Inr (PyInt 0, PyInt 0)
   \<and> dict_get (counters [(Some ''0'', [(Some ''real'', 1), (Some ''fake'', 1)])] (Some ''0''))
         (Some ''real'') = Some 1
   \<and> dict_get (counters [(Some ''0'', [(Some ''real'', 1), (Some ''fake'', 1)])] (Some ''0''))
         (Some ''fake'') = Some 1
   \<and> get_feedback_percentages [(Some ''0'', [(Some ''real'', 1), (Some ''fake'', 1)])] (Some ''0'')
       = Inr (PyFloat (py_round2_float (py_float_mul (double_of_rat (of_int 1 / of_int (1 + 1))) (Finite 100))),
              PyFloat (py_round2_float (py_float_mul (double_of_rat (of_int 1 / of_int (1 + 1))) (Finite 100))))
   \<and> dict_get (feedback_store state0) (Some ''0'') = None
   \<and> count_list [Some ''real'', Some ''fake'', Some ''real'', Some ''real''] (Some ''real'') = 3
   \<and> count_list [Some ''real'', Some ''fake'', Some ''real'', Some ''real''] (Some ''fake'') = 1
   \<and> get_feedback_percentages
         (feedback_store
            (record_votes state0 (Some ''0'')
               [Some ''real'', Some ''fake'', Some ''real'', Some ''real'']))
         (Some ''0'')
       = Inr (PyFloat (Finite 75), PyFloat (Finite 25))"
  using C4_percentages [of "[]" "Some ''0''"
      "[(Some ''0'', [(Some ''real'', 1), (Some ''fake'', 1)])]" "Some ''0''" 1 1
      state0 "Some ''0''" "[Some ''real'', Some ''fake'', Some ''real'', Some ''real'']"]
  by (simp add: counters_def state0_def)

section \<open>The news fetcher\<close>

lemma api_field_cases:
  assumes "api_field d k"
  obtains "dict_get d k = None" | "dict_get d k = Some PNone" | s where "dict_get d k = Some (PStr s)"
  using assms by (auto simp: api_field_def split: option.splits pyval.splits)

lemma clean_article_api:
  assumes "api_article a"
  shows "clean_article a = Inr (if kept a then Some (cleaned a) else None)"
proof -
  from assms obtain d where a: "a = PDict d"
    by (auto simp: api_article_def split: pyval.splits)
  from assms a have t: "api_field d ''title''" and ds: "api_field d ''description''"
    and u: "api_field d ''url''"
    and src: "dict_get d ''source'' = None \<or> (\<exists>sd. dict_get d ''source'' = Some (PDict sd))"
    by (auto simp: api_article_def split: option.splits pyval.splits)
  show ?thesis
  proof (cases "field_str a ''title'' = []")
    case True
    with t a show ?thesis
      by (elim api_field_cases) (simp_all add: clean_article_def kept_def field_str_def)
  next
    case tne: False
    with t a obtain ts where ts: "dict_get d ''title'' = Some (PStr ts)" "ts \<noteq> []"
      by (elim api_field_cases) (simp_all add: field_str_def)
    show ?thesis
    proof (cases "field_str a ''description'' = []")
      case True
      with ds a ts show ?thesis
        by (elim api_field_cases) (simp_all add: clean_article_def kept_def field_str_def)
    next
      case dne: False
      with ds a obtain dss where dss: "dict_get d ''description'' = Some (PStr dss)" "dss \<noteq> []"
        by (elim api_field_cases) (simp_all add: field_str_def)
      show ?thesis
      proof (cases "field_str a ''url'' = []")
        case True
        with u a ts dss show ?thesis
          by (elim api_field_cases) (simp_all add: clean_article_def kept_def field_str_def)
      next
        case une: False
        with u a obtain us where us: "dict_get d ''url'' = Some (PStr us)" "us \<noteq> []"
          by (elim api_field_cases) (simp_all add: field_str_def)
        from src a ts dss us show ?thesis
          by (auto simp: clean_article_def kept_def field_str_def cleaned_def split: option.splits)
      qed
    qed
  qed
qed

lemma valid_articles_api:
  assumes "\<forall>a \<in> set upstream. api_article a"
  shows "valid_articles upstream = Inr (map cleaned (filter kept upstream))"
  using assms by (induction upstream) (simp_all add: clean_article_api)

text \<open>
  C6. When the news API answers with status 200 and a list of article objects (title,
  description and url each a string, null or missing; the source an object or missing),
  the fetcher returns, in the order of the API, exactly the articles whose title,
  description and url are present and not empty, with title and description trimmed, a
  missing image field as the empty string, and a missing source or source name as
  "Unknown Source".
\<close>

theorem C6_fetch_news:
  assumes "get (news_url query) = Inr \<lparr>status_code = 200, json_body = Inr (PDict body)\<rparr>"
    and "dict_get body ''articles'' = Some (PList upstream)"
    and "\<forall>a \<in> set upstream. api_article a"
  shows "fetch_news get query = Inr (map cleaned (filter kept upstream))"
  using assms(1,2) valid_articles_api [OF assms(3)]
  by (simp add: fetch_news_def fetch_news_try_def)

lemma strip_examples:
  "py_strip '' https://example.com/a '' = ''https://example.com/a''"
  "py_strip ''flood'' = ''flood''"
  "py_strip '' Flood warning '' = ''Flood warning''"
  "py_strip ''Rivers rise'' = ''Rivers rise''"
  "py_strip ''Market crash'' = ''Market crash''"
  "py_strip ''Experts report'' = ''Experts report''"
  by (simp_all add: py_strip_def py_isspace_def)


lemma example_api: "\<forall>a \<in> set example_articles. api_article a"
  by (simp add: example_articles_def api_article_def api_field_def)

lemma example_cleaned:
  "map cleaned (filter kept example_articles) =
     [\<lparr>title = Some ''Flood warning'', description = ''Rivers rise'',
       url = PStr ''https://n.example/1'', urlToImage = Some PNone, source = Some (PStr ''Wire''),
       prediction = None, confidence = None, article_id = None,
       real_percentage = None, fake_percentage = None\<rparr>,
      \<lparr>title = Some ''Market crash'', description = ''Experts report'',
       url = PStr ''https://n.example/3'', urlToImage = Some (PStr []),
       source = Some (PStr ''Unknown Source''),
       prediction = None, confidence = None, article_id = None,
       real_percentage = None, fake_percentage = None\<rparr>]"
  by (simp add: example_articles_def kept_def cleaned_def field_str_def strip_examples)

theorem C6_fetch_news_witness:
  "requests_get example_env (news_url ''flood'')
     = Inr \<lparr>status_code = 200,
            json_body = Inr (PDict [(''status'', PStr ''ok''), (''articles'', PList example_articles)])\<rparr>
   \<and> dict_get [(''status'', PStr ''ok''), (''articles'', PList example_articles)] ''articles''
       = Some (PList example_articles)
   \<and> list_all api_article example_articles
   \<and> fetch_news (requests_get example_env) ''flood'' =
       Inr [\<lparr>title = Some ''Flood warning'', description = ''Rivers rise'',
             url = PStr ''https://n.example/1'', urlToImage = Some PNone, source = Some (PStr ''Wire''),
             prediction = None, confidence = None, article_id = None,
             real_percentage = None, fake_percentage = None\<rparr>,
            \<lparr>title = Some ''Market crash'', description = ''Experts report'',
             url = PStr ''https://n.example/3'', urlToImage = Some (PStr []),
             source = Some (PStr ''Unknown Source''),
             prediction = None, confidence = None, article_id = None,
             real_percentage = None, fake_percentage = None\<rparr>]"
proof -
  have 1: "requests_get example_env (news_url ''flood'')
     = Inr \<lparr>status_code = 200,
            json_body = Inr (PDict [(''status'', PStr ''ok''), (''articles'', PList example_articles)])\<rparr>"
    by (simp add: example_env_def)
  have 2: "dict_get [(''status'', PStr ''ok''), (''articles'', PList example_articles)] ''articles''
       = Some (PList example_articles)"
    by simp
  from C6_fetch_news [of "requests_get example_env" "''flood''"
        "[(''status'', PStr ''ok''), (''articles'', PList example_articles)]" example_articles,
        OF 1 2 example_api] 1 2 example_api show ?thesis
    by (simp only: example_cleaned list_all_iff)
qed



section \<open>The search handler\<close>

lemma index_calls:
  assumes "index_method req = ''POST''"
    and "query = py_strip (case form_query req of None \<Rightarrow> [] | Some q \<Rightarrow> q)"
    and "query \<noteq> []"
  shows "snd (index env st req) = snd (snd (fetch_articles env query))"
  using assms
  by (simp add: index_def Let_def split: prod.splits sum.splits option.splits)

text \<open>
  C5. For every search request whose query is not empty after trimming, the handler makes
  exactly one fetcher call, with the trimmed query: the call of the URL-content fetcher if
  parsing the query yields a scheme and a netloc that are both not empty, and the call of
  the news-search fetcher otherwise (also when the parser raises).
\<close>

theorem C5_routing:
  assumes "index_method req = ''POST''"
    and "query = py_strip (case form_query req of None \<Rightarrow> [] | Some q \<Rightarrow> q)"
    and "query \<noteq> []"
  shows "snd (index env st req) =
           [if \<exists>r. urlparse env query = Inr r \<and> scheme r \<noteq> [] \<and> netloc r \<noteq> []
            then Call_fetch_url_content query else Call_fetch_news query]"
proof -
  have "snd (snd (fetch_articles env query)) =
          [if is_valid_url env query then Call_fetch_url_content query else Call_fetch_news query]"
    by (simp add: fetch_articles_def split: option.splits)
  moreover have "is_valid_url env query
      \<longleftrightarrow> (\<exists>r. urlparse env query = Inr r \<and> scheme r \<noteq> [] \<and> netloc r \<noteq> [])"
    by (auto simp: is_valid_url_def split: sum.splits)
  ultimately show ?thesis
    using index_calls [OF assms] by simp
qed

theorem C5_routing_witness:
  "index_method \<lparr>index_method = ''POST'', form_query = Some '' https://example.com/a ''\<rparr> = ''POST''
   \<and> py_strip '' https://example.com/a '' \<noteq> []
   \<and> snd (index example_env state0
            \<lparr>index_method = ''POST'', form_query = Some '' https://example.com/a ''\<rparr>)
       = [Call_fetch_url_content ''https://example.com/a'']
   \<and> py_strip ''flood'' \<noteq> []
   \<and> snd (index example_env state0 \<lparr>index_method = ''POST'', form_query = Some ''flood''\<rparr>)
       = [Call_fetch_news ''flood'']"
  using
    C5_routing [of "\<lparr>index_method = ''POST'', form_query = Some '' https://example.com/a ''\<rparr>"
      "''https://example.com/a''" example_env state0]
    C5_routing [of "\<lparr>index_method = ''POST'', form_query = Some ''flood''\<rparr>"
      "''flood''" example_env state0]
  by (simp add: strip_examples example_env_def)


lemma dict_get_in_set: "dict_get d k = Some v \<Longrightarrow> (k, v) \<in> set d"
  by (induction d) (auto split: if_splits)

lemma percentages_ok:
  assumes "counts_ok store"
  shows "\<exists>p. get_feedback_percentages store nid = Inr p"
proof -
  have "\<exists>a b. dict_get (counters store nid) (Some ''real'') = Some a
             \<and> dict_get (counters store nid) (Some ''fake'') = Some b \<and> 0 \<le> a \<and> 0 \<le> b"
  proof (cases "dict_get store nid")
    case None
    then show ?thesis by (simp add: counters_def)
  next
    case (Some r)
    then have "(nid, r) \<in> set store" by (rule dict_get_in_set)
    with assms
    have "case (dict_get r (Some ''real''), dict_get r (Some ''fake'')) of
            (Some a, Some b) \<Rightarrow> 0 \<le> a \<and> 0 \<le> b
          | _ \<Rightarrow> False"
      by (auto simp: counts_ok_def list_all_iff)
    with Some show ?thesis
      by (cases "dict_get r (Some ''real'')"; cases "dict_get r (Some ''fake'')")
         (simp_all add: counters_def)
  qed
  then obtain a b where ab: "dict_get (counters store nid) (Some ''real'') = Some a"
    "dict_get (counters store nid) (Some ''fake'') = Some b" "0 \<le> a" "0 \<le> b" by blast
  show ?thesis
  proof (cases "0 < a + b")
    case True
    from percentages_formula [OF ab True] show ?thesis by blast
  next
    case False
    with ab show ?thesis
      by (simp add: percentages_counters dict_getitem_def)
  qed
qed

lemma annotate_ok:
  assumes "counts_ok store"
  shows "fst (annotate env store i arts) = None
       \<and> length (snd (annotate env store i arts)) = length arts
       \<and> (\<forall>k < length arts. \<exists>rp fp.
            snd (annotate env store i arts) ! k
              = (analyse_article env (arts ! k))
                  \<lparr>article_id := Some (str_nat (i + k)),
                   real_percentage := Some rp, fake_percentage := Some fp\<rparr>)"
proof (induction arts arbitrary: i)
  case Nil
  show ?case by simp
next
  case (Cons a as)
  from percentages_ok [OF assms] obtain rp fp
    where p: "get_feedback_percentages store (Some (str_nat i)) = Inr (rp, fp)" by fastforce
  obtain r as' where r: "annotate env store (Suc i) as = (r, as')" by fastforce
  from Cons.IH [of "Suc i"] r have ih: "r = None" "length as' = length as"
    "\<forall>k < length as. \<exists>rp fp. as' ! k
       = (analyse_article env (as ! k))
           \<lparr>article_id := Some (str_nat (Suc i + k)),
            real_percentage := Some rp, fake_percentage := Some fp\<rparr>"
    by simp_all
  have eq: "annotate env store i (a # as)
      = (r, (analyse_article env a)
              \<lparr>article_id := Some (str_nat i),
               real_percentage := Some rp, fake_percentage := Some fp\<rparr> # as')"
    using p r by (simp add: Let_def)
  show ?case
  proof (intro conjI allI impI)
    show "fst (annotate env store i (a # as)) = None" using eq ih by simp
    show "length (snd (annotate env store i (a # as))) = length (a # as)" using eq ih by simp
    fix k assume k: "k < length (a # as)"
    show "\<exists>rp fp. snd (annotate env store i (a # as)) ! k
              = (analyse_article env ((a # as) ! k))
                  \<lparr>article_id := Some (str_nat (i + k)),
                   real_percentage := Some rp, fake_percentage := Some fp\<rparr>"
    proof (cases k)
      case 0
      with eq show ?thesis by (simp) blast
    next
      case (Suc j)
      with k ih(3) have "\<exists>rp fp. as' ! j
       = (analyse_article env (as ! j))
           \<lparr>article_id := Some (str_nat (Suc i + j)),
            real_percentage := Some rp, fake_percentage := Some fp\<rparr>" by simp
      with Suc eq show ?thesis by (simp)
    qed
  qed
qed

lemma index_articles:
  assumes "index_method req = ''POST''"
    and "query = py_strip (case form_query req of None \<Rightarrow> [] | Some q \<Rightarrow> q)"
    and "query \<noteq> []"
    and "fst (fetch_articles env query) = Inr arts"
    and "fst (annotate env (feedback_store st) 0 arts) = None"
  shows "\<exists>page. fst (index env st req) = Render_index page
           \<and> page_articles page = snd (annotate env (feedback_store st) 0 arts)"
  using assms
  by (auto simp: index_def Let_def split: prod.splits sum.splits option.splits)

text \<open>
  C8. For every list of fetched articles and every detector, with a feedback store whose
  counters are in order: the request is answered with the page, the page has all the
  articles in their order, an article whose analysis raises has the label
  "unable to analyze" and the confidence "N/A", and every other article has the label and
  the confidence of its own analysis; all of them keep title, description and url and get
  their index as identifier.
\<close>

theorem C8_one_bad_article:
  assumes "index_method req = ''POST''"
    and "query = py_strip (case form_query req of None \<Rightarrow> [] | Some q \<Rightarrow> q)"
    and "query \<noteq> []"
    and "fst (fetch_articles env query) = Inr arts"
    and "counts_ok (feedback_store st)"
  shows "\<exists>page. fst (index env st req) = Render_index page
           \<and> length (page_articles page) = length arts
           \<and> (\<forall>i < length arts.
                (case analysis env (arts ! i) of
                   Inl e \<Rightarrow> prediction (page_articles page ! i) = Some ''unable to analyze''
                          \<and> confidence (page_articles page ! i) = Some ''N/A''
                 | Inr (l, c) \<Rightarrow> prediction (page_articles page ! i) = Some l
                          \<and> confidence (page_articles page ! i) = Some c)
                \<and> article_id (page_articles page ! i) = Some (str_nat i)
                \<and> title (page_articles page ! i) = title (arts ! i)
                \<and> description (page_articles page ! i) = description (arts ! i)
                \<and> url (page_articles page ! i) = url (arts ! i))"
proof -
  note ok = annotate_ok [OF assms(5), of env 0 arts]
  from index_articles [OF assms(1-4)] ok obtain page
    where page: "fst (index env st req) = Render_index page"
      "page_articles page = snd (annotate env (feedback_store st) 0 arts)" by blast
  have "\<forall>i < length arts.
                (case analysis env (arts ! i) of
                   Inl e \<Rightarrow> prediction (page_articles page ! i) = Some ''unable to analyze''
                          \<and> confidence (page_articles page ! i) = Some ''N/A''
                 | Inr (l, c) \<Rightarrow> prediction (page_articles page ! i) = Some l
                          \<and> confidence (page_articles page ! i) = Some c)
                \<and> article_id (page_articles page ! i) = Some (str_nat i)
                \<and> title (page_articles page ! i) = title (arts ! i)
                \<and> description (page_articles page ! i) = description (arts ! i)
                \<and> url (page_articles page ! i) = url (arts ! i)"
  proof (intro allI impI)
    fix i assume "i < length arts"
    with ok obtain rp fp where "page_articles page ! i
              = (analyse_article env (arts ! i))
                  \<lparr>article_id := Some (str_nat i),
                   real_percentage := Some rp, fake_percentage := Some fp\<rparr>"
      unfolding page(2) by fastforce
    then show "(case analysis env (arts ! i) of
                   Inl e \<Rightarrow> prediction (page_articles page ! i) = Some ''unable to analyze''
                          \<and> confidence (page_articles page ! i) = Some ''N/A''
                 | Inr (l, c) \<Rightarrow> prediction (page_articles page ! i) = Some l
                          \<and> confidence (page_articles page ! i) = Some c)
                \<and> article_id (page_articles page ! i) = Some (str_nat i)
                \<and> title (page_articles page ! i) = title (arts ! i)
                \<and> description (page_articles page ! i) = description (arts ! i)
                \<and> url (page_articles page ! i) = url (arts ! i)"
      by (simp add: analyse_article_def split: sum.splits prod.splits)
  qed
  with page ok show ?thesis by auto
qed

lemma example_fetch:
  "fst (fetch_articles example_env ''flood'') =
     Inr [\<lparr>title = Some ''Flood warning'', description = ''Rivers rise'',
           url = PStr ''https://n.example/1'', urlToImage = Some PNone, source = Some (PStr ''Wire''),
           prediction = None, confidence = None, article_id = None,
           real_percentage = None, fake_percentage = None\<rparr>,
          \<lparr>title = Some ''Market crash'', description = ''Experts report'',
           url = PStr ''https://n.example/3'', urlToImage = Some (PStr []),
           source = Some (PStr ''Unknown Source''),
           prediction = None, confidence = None, article_id = None,
           real_percentage = None, fake_percentage = None\<rparr>]"
proof -
  have "\<not> is_valid_url example_env ''flood''"
    by (simp add: is_valid_url_def example_env_def)
  moreover have "requests_get example_env (news_url ''flood'')
     = Inr \<lparr>status_code = 200,
            json_body = Inr (PDict [(''status'', PStr ''ok''), (''articles'', PList example_articles)])\<rparr>"
    by (simp add: example_env_def)
  from valid_articles_api [OF example_api] this
  have "fetch_news (requests_get example_env) ''flood'' = Inr (map cleaned (filter kept example_articles))"
    by (simp add: fetch_news_def fetch_news_try_def)
  ultimately show ?thesis
    by (simp add: fetch_articles_def example_cleaned)
qed

lemma example_analysis:
  "analysis example_env
     \<lparr>title = Some ''Market crash'', description = ''Experts report'',
      url = PStr ''https://n.example/3'', urlToImage = Some (PStr []),
      source = Some (PStr ''Unknown Source''),
      prediction = None, confidence = None, article_id = None,
      real_percentage = None, fake_percentage = None\<rparr> = Inl TypeError"
  by (simp add: analysis_def example_env_def text_to_analyze_def py_lower_def py_lower_char_def)


lemma double_of_rat_half: "double_of_rat (1 / 2) = Finite (1 / 2)"
proof -
  have e: "of_int 1 * 2 powi (- 1) = (1 / 2 :: rat)"
    by (simp add: power_int_def)
  from double_of_rat_dyadic [of 1 "- 1"] show ?thesis
    unfolding e by simp
qed

lemma fifty_percent: "py_format_percent (py_float_mul (Finite (1 / 2)) (Finite 100)) = ''50%''"
proof -
  have "py_float_mul (Finite (1 / 2)) (Finite 100) = Finite 50"
    using double_of_rat_int [of 50] by simp
  moreover have "round_half_even 50 = 50"
    using round_half_even_of_int [of 50] by simp
  moreover have "str_nat 50 = ''50''"
    by code_simp
  ultimately show ?thesis by simp
qed

lemma example_analysis_ok:
  "analysis example_env
     \<lparr>title = Some ''Flood warning'', description = ''Rivers rise'',
      url = PStr ''https://n.example/1'', urlToImage = Some PNone, source = Some (PStr ''Wire''),
      prediction = None, confidence = None, article_id = None,
      real_percentage = None, fake_percentage = None\<rparr> = Inr (''unverified'', ''50%'')"
proof -
  have c: "count_terms suspicious_words (py_lower ''Flood warning Rivers rise'') = 0"
    "count_terms credible_words (py_lower ''Flood warning Rivers rise'') = 0"
    "findall_url (py_lower ''Flood warning Rivers rise'') = []"
    "\<not> py_in_str ''crash'' (py_lower ''Flood warning Rivers rise'')"
    by code_simp+
  have "analyze_text ''Flood warning Rivers rise''
          = \<lparr>labels = [''unverified''], scores = [Finite (1 / 2)]\<rparr>"
    by (simp add: analyze_text_def Let_def c double_of_rat_half)
  with c(4) fifty_percent show ?thesis
    by (simp add: analysis_def example_env_def text_to_analyze_def fake_news_detector_def
          py_index_def del: py_float_mul.simps py_format_percent.simps)
qed

theorem C8_one_bad_article_witness:
  "index_method \<lparr>index_method = ''POST'', form_query = Some ''flood''\<rparr> = ''POST''
   \<and> py_strip ''flood'' \<noteq> []
   \<and> (\<exists>arts. fst (fetch_articles example_env ''flood'') = Inr arts \<and> length arts = 2
         \<and> analysis example_env (arts ! 0) = Inr (''unverified'', ''50%'')
         \<and> analysis example_env (arts ! 1) = Inl TypeError)
   \<and> counts_ok (feedback_store state0)
   \<and> (\<exists>page. fst (index example_env state0 \<lparr>index_method = ''POST'', form_query = Some ''flood''\<rparr>)
                 = Render_index page
         \<and> length (page_articles page) = 2
         \<and> prediction (page_articles page ! 0) = Some ''unverified''
         \<and> confidence (page_articles page ! 0) = Some ''50%''
         \<and> prediction (page_articles page ! 1) = Some ''unable to analyze''
         \<and> confidence (page_articles page ! 1) = Some ''N/A'')"
proof -
  let ?req = "\<lparr>index_method = ''POST'', form_query = Some ''flood''\<rparr>"
  let ?a0 = "\<lparr>title = Some ''Flood warning'', description = ''Rivers rise'',
           url = PStr ''https://n.example/1'', urlToImage = Some PNone, source = Some (PStr ''Wire''),
           prediction = None, confidence = None, article_id = None,
           real_percentage = None, fake_percentage = None\<rparr>"
  let ?a1 = "\<lparr>title = Some ''Market crash'', description = ''Experts report'',
           url = PStr ''https://n.example/3'', urlToImage = Some (PStr []),
           source = Some (PStr ''Unknown Source''),
           prediction = None, confidence = None, article_id = None,
           real_percentage = None, fake_percentage = None\<rparr>"
  have 1: "index_method ?req = ''POST''" by simp
  have 2: "''flood'' = py_strip (case form_query ?req of None \<Rightarrow> [] | Some q \<Rightarrow> q)"
    by (simp add: strip_examples)
  have 3: "''flood'' \<noteq> []" by simp
  have 4: "fst (fetch_articles example_env ''flood'') = Inr [?a0, ?a1]"
    by (rule example_fetch)
  have 5: "counts_ok (feedback_store state0)"
    by (simp add: counts_ok_def state0_def)
  from C8_one_bad_article [OF 1 2 3 4 5] obtain page
    where p: "fst (index example_env state0 ?req) = Render_index page"
      "length (page_articles page) = length [?a0, ?a1]"
      and all: "\<forall>i < length [?a0, ?a1].
                (case analysis example_env ([?a0, ?a1] ! i) of
                   Inl e \<Rightarrow> prediction (page_articles page ! i) = Some ''unable to analyze''
                          \<and> confidence (page_articles page ! i) = Some ''N/A''
                 | Inr (l, c) \<Rightarrow> prediction (page_articles page ! i) = Some l
                          \<and> confidence (page_articles page ! i) = Some c)
                \<and> article_id (page_articles page ! i) = Some (str_nat i)
                \<and> title (page_articles page ! i) = title ([?a0, ?a1] ! i)
                \<and> description (page_articles page ! i) = description ([?a0, ?a1] ! i)
                \<and> url (page_articles page ! i) = url ([?a0, ?a1] ! i)"
    by blast
  from all [rule_format, of 0] example_analysis_ok
  have a: "prediction (page_articles page ! 0) = Some ''unverified''"
    "confidence (page_articles page ! 0) = Some ''50%''" by simp_all
  from all [rule_format, of 1] example_analysis
  have b: "prediction (page_articles page ! 1) = Some ''unable to analyze''"
    "confidence (page_articles page ! 1) = Some ''N/A''" by simp_all
  have "\<exists>arts. fst (fetch_articles example_env ''flood'') = Inr arts \<and> length arts = 2
         \<and> analysis example_env (arts ! 0) = Inr (''unverified'', ''50%'')
         \<and> analysis example_env (arts ! 1) = Inl TypeError"
    using 4 example_analysis_ok example_analysis by simp
  with 1 5 p a b show ?thesis
    by (simp add: strip_examples)
qed

end
